theory Spec2Isabelle
  imports Complex_Main "HOL-Library.Word" "HOL-Library.AList"
begin

unbundle bit_operations_syntax

section \<open>Exceptions shared by the helper modules\<close>

text \<open>
  The exceptions of \<^verbatim>\<open>dns/ttl.py\<close>, \<^verbatim>\<open>dns/rcode.py\<close>, \<^verbatim>\<open>dns/renderer.py\<close>,
  \<^verbatim>\<open>dns/name.py\<close> and \<^verbatim>\<open>dns/xfr.py\<close> that the modelled functions raise, together
  with the builtin ones (\<^verbatim>\<open>ValueError\<close>, \<^verbatim>\<open>IndexError\<close>, ...). A function that can raise
  returns \<open>py_error + 'a\<close>, with \<open>Inl\<close> for the exception.
\<close>

datatype py_error =
    ValueError
  | IndexError
  | AttributeError
  | UnicodeEncodeError
  | BadTTL
  | FormError
  | NameTooLong
  | LabelTooLong
  | EmptyLabel

section \<open>dns/rcode.py\<close>

text \<open>
  \<^verbatim>\<open>class Rcode(dns.enum.IntEnum)\<close>. \<^verbatim>\<open>BADSIG = 16\<close> repeats the value of \<^verbatim>\<open>BADVERS\<close>,
  so in a Python enum it is an alias of the same member.
\<close>

datatype Rcode =
    NOERROR | FORMERR | SERVFAIL | NXDOMAIN | NOTIMP | REFUSED | YXDOMAIN | YXRRSET
  | NXRRSET | NOTAUTH | NOTZONE | DSOTYPENI | BADVERS | BADKEY | BADTIME | BADMODE
  | BADNAME | BADALG | BADTRUNC | BADCOOKIE

abbreviation BADSIG :: Rcode where
  "BADSIG \<equiv> BADVERS"

fun rcode_value :: "Rcode \<Rightarrow> int" where
  "rcode_value NOERROR = 0"
| "rcode_value FORMERR = 1"
| "rcode_value SERVFAIL = 2"
| "rcode_value NXDOMAIN = 3"
| "rcode_value NOTIMP = 4"
| "rcode_value REFUSED = 5"
| "rcode_value YXDOMAIN = 6"
| "rcode_value YXRRSET = 7"
| "rcode_value NXRRSET = 8"
| "rcode_value NOTAUTH = 9"
| "rcode_value NOTZONE = 10"
| "rcode_value DSOTYPENI = 11"
| "rcode_value BADVERS = 16"
| "rcode_value BADKEY = 17"
| "rcode_value BADTIME = 18"
| "rcode_value BADMODE = 19"
| "rcode_value BADNAME = 20"
| "rcode_value BADALG = 21"
| "rcode_value BADTRUNC = 22"
| "rcode_value BADCOOKIE = 23"

definition Rcode_members :: "Rcode list" where
  "Rcode_members =
     [NOERROR, FORMERR, SERVFAIL, NXDOMAIN, NOTIMP, REFUSED, YXDOMAIN, YXRRSET,
      NXRRSET, NOTAUTH, NOTZONE, DSOTYPENI, BADVERS, BADKEY, BADTIME, BADMODE,
      BADNAME, BADALG, BADTRUNC, BADCOOKIE]"

text \<open>
  The call \<^verbatim>\<open>Rcode(value)\<close>: the enum looks the value up among its members and, since
  \<^verbatim>\<open>dns.enum.IntEnum\<close> defines no \<^verbatim>\<open>_missing_\<close> hook, raises \<^verbatim>\<open>ValueError\<close> when no
  member has it.
\<close>

definition Rcode_call :: "int \<Rightarrow> py_error + Rcode" where
  "Rcode_call v =
     (case find (\<lambda>m. rcode_value m = v) Rcode_members of
        Some m \<Rightarrow> Inr m
      | None \<Rightarrow> Inl ValueError)"

text \<open>
  \<^verbatim>\<open>dns.enum.IntEnum.make\<close> on an \<^verbatim>\<open>int\<close>: the member when there is one, else the
  plain integer. The result is read as an integer either way (an \<^verbatim>\<open>IntEnum\<close> member
  is an \<^verbatim>\<open>int\<close>).
\<close>

definition IntEnum_make :: "int \<Rightarrow> int" where
  "IntEnum_make v = (case Rcode_call v of Inr m \<Rightarrow> rcode_value m | Inl e \<Rightarrow> v)"

text \<open>Python's \<^verbatim>\<open>&\<close>, \<^verbatim>\<open>|\<close>, \<^verbatim>\<open>>>\<close> and \<^verbatim>\<open><<\<close> on unbounded integers.\<close>

definition from_flags :: "int \<Rightarrow> int \<Rightarrow> py_error + Rcode" where
  "from_flags flags ednsflags =
     (let rcode = (flags AND 0x000f) OR ((drop_bit 20 ednsflags) AND 0xff0)
      in if 0 \<le> rcode \<and> rcode \<le> 4095 then Rcode_call rcode else Inl ValueError)"

definition to_flags :: "int \<Rightarrow> py_error + (int \<times> int)" where
  "to_flags v =
     (if 0 \<le> v \<and> v \<le> 4095
      then (let flags = v AND 0x000f;
                ednsflags = push_bit 20 (v AND 0xff0)
            in Inr (flags, ednsflags))
      else Inl ValueError)"

text \<open>\<^verbatim>\<open>from_flags(*to_flags(r))\<close>: an exception of either call propagates.\<close>

definition from_flags_of_to_flags :: "int \<Rightarrow> py_error + Rcode" where
  "from_flags_of_to_flags r =
     (case to_flags r of
        Inl e \<Rightarrow> Inl e
      | Inr (flags, ednsflags) \<Rightarrow> from_flags flags ednsflags)"

section \<open>dns/ttl.py\<close>

text \<open>
  The text is a Python \<^verbatim>\<open>str\<close>; the model covers the texts whose code points are below
  256, one \<open>char\<close> per code point. \<^verbatim>\<open>str.isdigit\<close> holds there for the ASCII digits and
  for the superscripts U+00B2, U+00B3 and U+00B9; \<^verbatim>\<open>str.isalpha\<close> for the ASCII letters,
  U+00AA, U+00B5, U+00BA and the letters from U+00C0 on (all but U+00D7 and U+00F7).
\<close>

definition MAX_TTL :: int where
  "MAX_TTL = 2 ^ 32 - 1"

definition ascii_digit :: "char \<Rightarrow> bool" where
  "ascii_digit c = (48 \<le> (of_char c :: nat) \<and> (of_char c :: nat) \<le> 57)"

definition isdigit :: "char \<Rightarrow> bool" where
  "isdigit c = (ascii_digit c \<or> (of_char c :: nat) \<in> {0xB2, 0xB3, 0xB9})"

definition isalpha :: "char \<Rightarrow> bool" where
  "isalpha c =
     (let n = (of_char c :: nat)
      in (65 \<le> n \<and> n \<le> 90) \<or> (97 \<le> n \<and> n \<le> 122) \<or> n = 0xAA \<or> n = 0xB5 \<or> n = 0xBA
         \<or> (0xC0 \<le> n \<and> n \<noteq> 0xD7 \<and> n \<noteq> 0xF7))"

text \<open>
  \<^verbatim>\<open>int(value)\<close> on a string of \<^verbatim>\<open>isdigit\<close> characters: the decimal number, and
  \<^verbatim>\<open>ValueError\<close> on a superscript digit or on the empty string. (The interpreter's
  limit on the number of digits of a conversion is not modelled.)
\<close>

definition py_int :: "string \<Rightarrow> py_error + int" where
  "py_int s =
     (if s \<noteq> [] \<and> list_all ascii_digit s
      then Inr (foldl (\<lambda>n c. 10 * n + (of_char c - 48)) 0 s)
      else Inl ValueError)"

text \<open>
  The \<^verbatim>\<open>for char in text\<close> loop of \<^verbatim>\<open>from_text\<close>, carrying \<^verbatim>\<open>total_seconds\<close> and
  \<^verbatim>\<open>value\<close>.
\<close>

fun ttl_loop :: "string \<Rightarrow> int \<Rightarrow> string \<Rightarrow> py_error + (int \<times> string)" where
  "ttl_loop [] total_seconds val = Inr (total_seconds, val)"
| "ttl_loop (c # cs) total_seconds val =
     (if isdigit c then ttl_loop cs total_seconds (val @ [c])
      else if isalpha c then
        (if val = [] then Inl BadTTL
         else (case py_int val of
                 Inl e \<Rightarrow> Inl e
               | Inr seconds \<Rightarrow>
                   if c = CHR ''w'' then ttl_loop cs (total_seconds + seconds * 7 * 24 * 3600) []
                   else if c = CHR ''d'' then ttl_loop cs (total_seconds + seconds * 24 * 3600) []
                   else if c = CHR ''h'' then ttl_loop cs (total_seconds + seconds * 3600) []
                   else if c = CHR ''m'' then ttl_loop cs (total_seconds + seconds * 60) []
                   else if c = CHR ''s'' then ttl_loop cs (total_seconds + seconds) []
                   else Inl BadTTL))
      else Inl BadTTL)"

definition from_text :: "string \<Rightarrow> py_error + int" where
  "from_text text =
     (if text = [] then Inl BadTTL
      else (case ttl_loop text 0 [] of
              Inl e \<Rightarrow> Inl e
            | Inr (total_seconds, val) \<Rightarrow>
                (case (if val \<noteq> [] then
                         (case py_int val of Inl e \<Rightarrow> Inl e | Inr n \<Rightarrow> Inr (total_seconds + n))
                       else Inr total_seconds) of
                   Inl e \<Rightarrow> Inl e
                 | Inr tot \<Rightarrow> if tot > MAX_TTL then Inl BadTTL else Inr tot)))"

section \<open>dns/renderer.py\<close>

text \<open>
  \<^verbatim>\<open>io.BytesIO\<close>: the bytes written so far and the stream position. \<^verbatim>\<open>seek\<close> to a
  negative offset raises \<^verbatim>\<open>ValueError\<close>; \<^verbatim>\<open>truncate()\<close> cuts the buffer at the position and
  leaves a shorter buffer as it is.
\<close>

record BytesIO =
  buf :: "8 word list"
  pos :: nat

definition seek_io :: "BytesIO \<Rightarrow> int \<Rightarrow> py_error + BytesIO" where
  "seek_io b offset = (if offset < 0 then Inl ValueError else Inr (b\<lparr>pos := nat offset\<rparr>))"

definition truncate_io :: "BytesIO \<Rightarrow> BytesIO" where
  "truncate_io b = b\<lparr>buf := take (pos b) (buf b)\<rparr>"

definition QUESTION :: int where "QUESTION = 0"
definition ANSWER :: int where "ANSWER = 1"
definition AUTHORITY :: int where "AUTHORITY = 2"
definition ADDITIONAL :: int where "ADDITIONAL = 3"

text \<open>
  The attributes of \<^verbatim>\<open>class Renderer\<close>. The compression table is a dict from names to
  offsets; \<open>'n\<close> is the type of its keys.
\<close>

record 'n Renderer =
  output_io :: BytesIO
  rid :: int
  rflags :: int
  max_size :: int
  origin :: "'n option"
  compress :: "'n \<rightharpoonup> int"
  rsection :: int
  counts :: "int list"
  mac :: string
  reserved :: int
  was_padded :: bool

text \<open>
  A method returns its outcome together with the renderer as the call leaves it, so that
  the state after a raised exception can be stated.
\<close>

definition rollback :: "'n Renderer \<Rightarrow> int \<Rightarrow> (py_error + unit) \<times> 'n Renderer" where
  "rollback r wher =
     (case seek_io (output_io r) wher of
        Inl e \<Rightarrow> (Inl e, r)
      | Inr b \<Rightarrow>
          (Inr (),
           r\<lparr>output_io := truncate_io b,
             compress := (\<lambda>k. case compress r k of
                                  None \<Rightarrow> None
                                | Some v \<Rightarrow> if v \<ge> wher then None else Some v)\<rparr>))"

definition set_section :: "'n Renderer \<Rightarrow> int \<Rightarrow> (py_error + unit) \<times> 'n Renderer" where
  "set_section r s =
     (if rsection r \<noteq> s
      then (if rsection r < s then (Inr (), r\<lparr>rsection := s\<rparr>) else (Inl FormError, r))
      else (Inr (), r))"

text \<open>
  A sequence of section writes: each write sets its section first and stops there when
  that raises. The outcomes are collected in order.
\<close>

fun set_sections :: "'n Renderer \<Rightarrow> int list \<Rightarrow> (py_error + unit) list \<times> 'n Renderer" where
  "set_sections r [] = ([], r)"
| "set_sections r (s # ss) =
     (case set_section r s of
        (res, r') \<Rightarrow> (case set_sections r' ss of (rs, r'') \<Rightarrow> (res # rs, r'')))"

section \<open>DNS data shared by the cache, the resolver and the zone transfer\<close>

text \<open>
  A name is its tuple of labels, each label a \<^verbatim>\<open>bytes\<close> (one \<open>char\<close> per octet).
  \<^verbatim>\<open>dns.name.empty\<close> has no label.
\<close>

type_synonym label = string
type_synonym name = "label list"

definition name_empty :: name where
  "name_empty = []"

datatype rdata = SOA_rdata int | Other_rdata string

record rrset =
  rr_name :: name
  rr_rdclass :: int
  rr_rdtype :: int
  rr_rdatas :: "rdata list"

record message =
  msg_id :: int
  msg_flags :: int
  msg_rcode :: Rcode
  msg_answer :: "rrset list"

text \<open>
  \<^verbatim>\<open>class Answer\<close>. Its \<^verbatim>\<open>rrset\<close> and \<^verbatim>\<open>expiration\<close> come from
  \<^verbatim>\<open>response.resolve_chaining()\<close> and the clock, set by the constructor. Clock readings
  are reals: the code only compares them and adds intervals to them.
\<close>

record Answer =
  a_qname :: name
  a_rdtype :: int
  a_rdclass :: int
  a_response :: message
  a_nameserver :: "string option"
  a_canonical_name :: name
  a_rrset :: "rrset option"
  expiration :: real

section \<open>dns/resolver.py: the simple cache\<close>

record CacheStatistics =
  hits :: int
  misses :: int

record 'k Cache =
  statistics :: CacheStatistics
  data :: "'k \<rightharpoonup> Answer"
  cleaning_interval :: real
  next_cleaning :: real

text \<open>
  Each method takes the readings of \<^verbatim>\<open>time.time()\<close> it makes as arguments, in the order
  of the calls: \<^verbatim>\<open>get\<close> reads the clock in \<^verbatim>\<open>_maybe_clean\<close> and, when the key has an
  entry, again in the expiry test.
\<close>

definition maybe_clean :: "'k Cache \<Rightarrow> real \<Rightarrow> 'k Cache" where
  "maybe_clean c now =
     (if next_cleaning c \<le> now
      then c\<lparr>data := (\<lambda>k. case data c k of
                              None \<Rightarrow> None
                            | Some v \<Rightarrow> if expiration v \<le> now then None else Some v),
             next_cleaning := now + cleaning_interval c\<rparr>
      else c)"

definition cache_get :: "'k Cache \<Rightarrow> real \<Rightarrow> real \<Rightarrow> 'k \<Rightarrow> Answer option \<times> 'k Cache" where
  "cache_get c now1 now2 key =
     (let c1 = maybe_clean c now1
      in case data c1 key of
           Some answer \<Rightarrow>
             if expiration answer > now2
             then (Some answer,
                   c1\<lparr>statistics := (statistics c1)\<lparr>hits := hits (statistics c1) + 1\<rparr>\<rparr>)
             else (None,
                   c1\<lparr>statistics := (statistics c1)\<lparr>misses := misses (statistics c1) + 1\<rparr>\<rparr>)
         | None \<Rightarrow>
             (None,
              c1\<lparr>statistics := (statistics c1)\<lparr>misses := misses (statistics c1) + 1\<rparr>\<rparr>))"

text \<open>The number of clock readings a \<^verbatim>\<open>get\<close> makes.\<close>

definition cache_get_readings :: "'k Cache \<Rightarrow> real \<Rightarrow> 'k \<Rightarrow> nat" where
  "cache_get_readings c now1 key =
     (case data (maybe_clean c now1) key of None \<Rightarrow> 1 | Some _ \<Rightarrow> 2)"

definition cache_put :: "'k Cache \<Rightarrow> real \<Rightarrow> 'k \<Rightarrow> Answer \<Rightarrow> 'k Cache" where
  "cache_put c now key v = (let c1 = maybe_clean c now in c1\<lparr>data := (data c1)(key \<mapsto> v)\<rparr>)"

section \<open>dns/xfr.py\<close>

text \<open>
  Modelled from the spec: \<^verbatim>\<open>dns.rdatatype\<close> is missing from the sources; the three
  record types the transfer tests are the standard type codes.
\<close>

definition SOA :: int where "SOA = 6"
definition IXFR :: int where "IXFR = 251"
definition AXFR :: int where "AXFR = 252"

text \<open>
  The transaction of \<^verbatim>\<open>dns.transaction\<close> is outside the modelled sources: it is
  represented by the list of the calls made on it, oldest first.
\<close>

datatype txn_call = Txn_add rrset | Txn_delete rrset | Txn_commit | Txn_rollback

record Inbound =
  txn :: "txn_call list option"
  ib_rdtype :: int
  ib_serial :: "int option"
  is_udp :: bool
  soa_rdataset :: "rrset option"
  ib_done :: bool
  expecting_SOA :: bool
  delete_mode :: bool

text \<open>\<^verbatim>\<open>Inbound.__init__\<close>, with its two \<^verbatim>\<open>ValueError\<close>s.\<close>

definition Inbound_init :: "int \<Rightarrow> int option \<Rightarrow> bool \<Rightarrow> py_error + Inbound" where
  "Inbound_init rdtype serial udp =
     (if rdtype = IXFR \<and> serial = None then Inl ValueError
      else if rdtype \<noteq> IXFR \<and> udp then Inl ValueError
      else Inr \<lparr>txn = None, ib_rdtype = rdtype, ib_serial = serial, is_udp = udp,
                soa_rdataset = None, ib_done = False, expecting_SOA = False,
                delete_mode = False\<rparr>)"

text \<open>\<^verbatim>\<open>rrset[0].serial\<close>: the first rdata must exist and be an SOA.\<close>

definition rrset_serial :: "rrset \<Rightarrow> py_error + int" where
  "rrset_serial rs =
     (case rr_rdatas rs of
        [] \<Rightarrow> Inl IndexError
      | SOA_rdata n # _ \<Rightarrow> Inr n
      | Other_rdata _ # _ \<Rightarrow> Inl AttributeError)"

definition txn_do :: "txn_call \<Rightarrow> Inbound \<Rightarrow> py_error + Inbound" where
  "txn_do call ib =
     (case txn ib of
        None \<Rightarrow> Inl AttributeError
      | Some calls \<Rightarrow> Inr (ib\<lparr>txn := Some (calls @ [call])\<rparr>))"

text \<open>
  The loop of \<^verbatim>\<open>_process_ixfr_message\<close> over \<^verbatim>\<open>message.answer\<close>. The comparison of
  \<^verbatim>\<open>dns.serial.Serial\<close> values is outside the modelled sources and is the parameter
  \<open>serial_le\<close>; the base serial of an IXFR is set (\<^verbatim>\<open>__init__\<close> checks it).
\<close>

fun process_ixfr_rrsets ::
  "(int \<Rightarrow> int \<Rightarrow> bool) \<Rightarrow> rrset list \<Rightarrow> Inbound \<Rightarrow> (py_error + bool) \<times> Inbound" where
  "process_ixfr_rrsets serial_le [] ib = (Inr False, ib)"
| "process_ixfr_rrsets serial_le (rs # rest) ib =
     (if rr_rdtype rs = SOA then
        (case soa_rdataset ib of
           None \<Rightarrow>
             (let ib1 = ib\<lparr>soa_rdataset := Some rs\<rparr>
              in case rrset_serial rs of
                   Inl e \<Rightarrow> (Inl e, ib1)
                 | Inr n \<Rightarrow>
                     (case ib_serial ib1 of
                        None \<Rightarrow> (Inl AttributeError, ib1)
                      | Some base \<Rightarrow>
                          if serial_le n base then (Inr True, ib1\<lparr>ib_done := True\<rparr>)
                          else process_ixfr_rrsets serial_le rest ib1))
         | Some soa \<Rightarrow>
             if rs = soa then
               (case txn_do Txn_commit ib of
                  Inl e \<Rightarrow> (Inl e, ib)
                | Inr ib1 \<Rightarrow> (Inr True, ib1\<lparr>ib_done := True\<rparr>))
             else process_ixfr_rrsets serial_le rest (ib\<lparr>delete_mode := \<not> delete_mode ib\<rparr>))
      else
        (case txn_do (if delete_mode ib then Txn_delete rs else Txn_add rs) ib of
           Inl e \<Rightarrow> (Inl e, ib)
         | Inr ib1 \<Rightarrow> process_ixfr_rrsets serial_le rest ib1))"

fun process_axfr_rrsets :: "rrset list \<Rightarrow> Inbound \<Rightarrow> (py_error + bool) \<times> Inbound" where
  "process_axfr_rrsets [] ib = (Inr False, ib)"
| "process_axfr_rrsets (rs # rest) ib =
     (if rr_rdtype rs = SOA \<and> soa_rdataset ib \<noteq> None then
        (case txn_do Txn_commit ib of
           Inl e \<Rightarrow> (Inl e, ib)
         | Inr ib1 \<Rightarrow> (Inr True, ib1\<lparr>ib_done := True\<rparr>))
      else
        (let ib0 = (if rr_rdtype rs = SOA then ib\<lparr>soa_rdataset := Some rs\<rparr> else ib)
         in case txn_do (Txn_add rs) ib0 of
              Inl e \<Rightarrow> (Inl e, ib0)
            | Inr ib1 \<Rightarrow> process_axfr_rrsets rest ib1))"

text \<open>
  \<^verbatim>\<open>process_message\<close>: the writer transaction is created on the first message, with no
  call made on it yet.
\<close>

definition process_message ::
  "(int \<Rightarrow> int \<Rightarrow> bool) \<Rightarrow> Inbound \<Rightarrow> message \<Rightarrow> (py_error + bool) \<times> Inbound" where
  "process_message serial_le ib m =
     (let ib1 = (if txn ib = None then ib\<lparr>txn := Some []\<rparr> else ib)
      in if ib_rdtype ib1 = AXFR then process_axfr_rrsets (msg_answer m) ib1
         else if ib_rdtype ib1 = IXFR then process_ixfr_rrsets serial_le (msg_answer m) ib1
         else (Inl ValueError, ib1))"

section \<open>dns/name.py\<close>

text \<open>
  A label handed to \<^verbatim>\<open>Name(labels)\<close> is a \<^verbatim>\<open>bytes\<close> or a \<^verbatim>\<open>str\<close> (its code points);
  \<^verbatim>\<open>_maybe_convert_to_binary\<close> encodes a \<^verbatim>\<open>str\<close> as ASCII, which raises
  \<^verbatim>\<open>UnicodeEncodeError\<close> on a code point above 127.
\<close>

datatype label_arg = Bytes string | Str "nat list"

definition maybe_convert_to_binary :: "label_arg \<Rightarrow> py_error + label" where
  "maybe_convert_to_binary x =
     (case x of
        Bytes b \<Rightarrow> Inr b
      | Str s \<Rightarrow> if list_all (\<lambda>n. n < 128) s then Inr (map char_of s)
                 else Inl UnicodeEncodeError)"

fun convert_labels :: "label_arg list \<Rightarrow> py_error + label list" where
  "convert_labels [] = Inr []"
| "convert_labels (x # xs) =
     (case maybe_convert_to_binary x of
        Inl e \<Rightarrow> Inl e
      | Inr b \<Rightarrow> (case convert_labels xs of Inl e \<Rightarrow> Inl e | Inr bs \<Rightarrow> Inr (b # bs)))"

text \<open>
  The \<^verbatim>\<open>for i, label in enumerate(labels)\<close> loop of \<^verbatim>\<open>_validate_labels\<close>; \<open>n\<close> is
  \<^verbatim>\<open>len(labels)\<close> and \<open>i\<close> the index of the label at the head.
\<close>

fun validate_loop :: "int \<Rightarrow> int \<Rightarrow> label list \<Rightarrow> py_error + unit" where
  "validate_loop i n [] = Inr ()"
| "validate_loop i n (l # ls) =
     (if length l > 63 then Inl LabelTooLong
      else if l = [] \<and> i \<noteq> n - 1 then Inl EmptyLabel
      else validate_loop (i + 1) n ls)"

definition total_length :: "label list \<Rightarrow> nat" where
  "total_length labels = sum_list (map (\<lambda>l. length l + 1) labels)"

definition validate_labels :: "label list \<Rightarrow> py_error + unit" where
  "validate_labels labels =
     (if total_length labels > 255 then Inl NameTooLong
      else validate_loop 0 (int (length labels)) labels)"

text \<open>\<^verbatim>\<open>Name.__init__\<close>: the name is its validated tuple of labels.\<close>

definition Name_init :: "label_arg list \<Rightarrow> py_error + name" where
  "Name_init args =
     (case convert_labels args of
        Inl e \<Rightarrow> Inl e
      | Inr labels \<Rightarrow> (case validate_labels labels of Inl e \<Rightarrow> Inl e | Inr _ \<Rightarrow> Inr labels))"

text \<open>\<^verbatim>\<open>bytes.lower()\<close> maps the octets of \<^verbatim>\<open>A\<close> to \<^verbatim>\<open>Z\<close> and no other.\<close>

definition lower_octet :: "char \<Rightarrow> char" where
  "lower_octet c =
     (if 65 \<le> (of_char c :: nat) \<and> (of_char c :: nat) \<le> 90
      then char_of ((of_char c :: nat) + 32) else c)"

definition bytes_lower :: "label \<Rightarrow> label" where
  "bytes_lower l = map lower_octet l"

text \<open>\<^verbatim>\<open>Name.__hash__\<close>: the value the method returns, an unbounded integer.\<close>

definition name_hash :: "name \<Rightarrow> int" where
  "name_hash labels =
     foldl (\<lambda>h l. foldl (\<lambda>h c. h + (push_bit 3 h + of_char c)) h (bytes_lower l)) 0 labels"

section \<open>dns/resolver.py: the LRU cache\<close>

text \<open>
  A node keeps its key, value and hit count. The dict \<^verbatim>\<open>data\<close> is an association list
  with distinct keys; the circular list through the sentinel is the list of the keys from
  \<^verbatim>\<open>sentinel.next\<close> (most recently used) to \<^verbatim>\<open>sentinel.prev\<close>.
\<close>

record LRUCacheNode =
  node_value :: Answer
  node_hits :: int

record 'k LRUCache =
  lru_statistics :: CacheStatistics
  lru_data :: "('k \<times> LRUCacheNode) list"
  lru_max_size :: int
  lru_list :: "'k list"

text \<open>
  Modelled from the spec: the list helpers \<^verbatim>\<open>_move_to_front\<close>, \<^verbatim>\<open>_add_front\<close>,
  \<^verbatim>\<open>_delete_node\<close> and \<^verbatim>\<open>_remove_least_recently_used\<close> that \<^verbatim>\<open>LRUCache\<close> calls are
  missing from the sources. They follow the spec's words: a hit or a replacing put moves
  the node to the front, a new node is inserted at the front, an expired node is evicted,
  and eviction removes the tail node (nothing when there is none).
\<close>

definition move_to_front :: "'k \<Rightarrow> 'k LRUCache \<Rightarrow> 'k LRUCache" where
  "move_to_front k c = c\<lparr>lru_list := k # remove1 k (lru_list c)\<rparr>"

definition add_front :: "'k \<Rightarrow> 'k LRUCache \<Rightarrow> 'k LRUCache" where
  "add_front k c = c\<lparr>lru_list := k # lru_list c\<rparr>"

definition delete_node :: "'k \<Rightarrow> 'k LRUCache \<Rightarrow> 'k LRUCache" where
  "delete_node k c =
     c\<lparr>lru_list := remove1 k (lru_list c), lru_data := AList.delete k (lru_data c)\<rparr>"

definition remove_least_recently_used :: "'k LRUCache \<Rightarrow> 'k LRUCache" where
  "remove_least_recently_used c =
     (case rev (lru_list c) of [] \<Rightarrow> c | k # _ \<Rightarrow> delete_node k c)"

text \<open>
  The \<^verbatim>\<open>while len(self.data) >= self.max_size\<close> loop of \<^verbatim>\<open>put\<close>. It does not end when
  the cache is empty and \<^verbatim>\<open>max_size\<close> is not positive; the result is \<open>None\<close> then.
\<close>

partial_function (option) evict_loop :: "'k LRUCache \<Rightarrow> 'k LRUCache option" where
  "evict_loop c =
     (if int (length (lru_data c)) \<ge> lru_max_size c
      then evict_loop (remove_least_recently_used c)
      else Some c)"

definition lru_put :: "'k LRUCache \<Rightarrow> 'k \<Rightarrow> Answer \<Rightarrow> 'k LRUCache option" where
  "lru_put c key v =
     (case map_of (lru_data c) key of
        Some node \<Rightarrow>
          Some (move_to_front key
                  (c\<lparr>lru_data :=
                       AList.update key
                         (node\<lparr>node_value := v, node_hits := node_hits node + 1\<rparr>)
                         (lru_data c)\<rparr>))
      | None \<Rightarrow>
          (case evict_loop c of
             None \<Rightarrow> None
           | Some c1 \<Rightarrow>
               (let c2 = add_front key c1
                in Some (c2\<lparr>lru_data :=
                               AList.update key \<lparr>node_value = v, node_hits = 0\<rparr>
                                 (lru_data c2)\<rparr>))))"

definition lru_get :: "'k LRUCache \<Rightarrow> real \<Rightarrow> 'k \<Rightarrow> Answer option \<times> 'k LRUCache" where
  "lru_get c now key =
     (case map_of (lru_data c) key of
        None \<Rightarrow>
          (None,
           c\<lparr>lru_statistics := (lru_statistics c)\<lparr>misses := misses (lru_statistics c) + 1\<rparr>\<rparr>)
      | Some node \<Rightarrow>
          if expiration (node_value node) \<le> now then
            (let c1 = delete_node key c
             in (None,
                 c1\<lparr>lru_statistics :=
                      (lru_statistics c1)\<lparr>misses := misses (lru_statistics c1) + 1\<rparr>\<rparr>))
          else
            (let c1 = move_to_front key
                        (c\<lparr>lru_data :=
                             AList.update key (node\<lparr>node_hits := node_hits node + 1\<rparr>)
                               (lru_data c)\<rparr>)
             in (Some (node_value node),
                 c1\<lparr>lru_statistics :=
                      (lru_statistics c1)\<lparr>hits := hits (lru_statistics c1) + 1\<rparr>\<rparr>)))"

definition get_hits_for_key :: "'k LRUCache \<Rightarrow> 'k \<Rightarrow> int" where
  "get_hits_for_key c key =
     (case map_of (lru_data c) key of None \<Rightarrow> 0 | Some node \<Rightarrow> node_hits node)"

section \<open>dns/resolver.py: the resolver\<close>

text \<open>
  What \<^verbatim>\<open>resolve\<close> takes from outside the modelled sources is an environment of oracles:
  the outcome of the \<open>n\<close>-th transport call (\<^verbatim>\<open>dns.query.udp\<close>, \<^verbatim>\<open>dns.query.tcp\<close>), the
  value of the \<open>n\<close>-th reading of \<^verbatim>\<open>time.time()\<close>, and \<^verbatim>\<open>response.resolve_chaining()\<close>
  (canonical name, answer RRset and minimum TTL). A transport call returns a response,
  raises \<^verbatim>\<open>dns.exception.Timeout\<close>, or raises another exception with its text.
\<close>

record Nameserver =
  address :: string
  ns_port :: int

record request =
  rq_qname :: name
  rq_rdtype :: int
  rq_rdclass :: int

datatype outcome = Response message | Timed_out | Raised string

record env =
  env_udp :: "nat \<Rightarrow> request \<Rightarrow> Nameserver \<Rightarrow> outcome"
  env_tcp :: "nat \<Rightarrow> request \<Rightarrow> Nameserver \<Rightarrow> outcome"
  env_clock :: "nat \<Rightarrow> real"
  env_chaining :: "message \<Rightarrow> name \<times> rrset option \<times> real"

type_synonym CacheKey = "name \<times> int \<times> int"

text \<open>
  The attributes of the resolver that \<^verbatim>\<open>resolve\<close> reads. \<^verbatim>\<open>reset()\<close> sets \<^verbatim>\<open>cache\<close> to
  \<^verbatim>\<open>None\<close>; a cache, when set, is the simple \<^verbatim>\<open>Cache\<close>.
\<close>

record Resolver =
  rs_nameservers :: "Nameserver list"
  rs_timeout :: real
  rs_lifetime :: real
  rs_rotate :: bool
  rs_cache :: "CacheKey Cache option"

text \<open>The attributes of \<^verbatim>\<open>_Resolution\<close>; the dict of NXDOMAIN responses keeps its order.\<close>

record Resolution =
  qnames_to_try :: "name list"
  qnames :: "name list"
  rn_rdtype :: int
  rn_rdclass :: int
  rn_tcp :: bool
  raise_on_no_answer :: bool
  nxdomain_responses :: "(name \<times> message) list"
  rn_qname :: name
  errors :: "(Nameserver \<times> string) list"

text \<open>
  The exceptions \<^verbatim>\<open>resolve\<close> raises: \<^verbatim>\<open>NXDOMAIN(qnames=..., responses=...)\<close>,
  \<^verbatim>\<open>LifetimeTimeout(timeout=..., errors=...)\<close>, or a builtin one.
\<close>

datatype resolve_exc =
    Raise_NXDOMAIN "name list" "(name \<times> message) list"
  | Raise_LifetimeTimeout real "(Nameserver \<times> string) list"
  | Raise_py py_error

text \<open>
  The state of a call of \<^verbatim>\<open>resolve\<close>: the resolver, the resolution, and how many
  transport calls and clock readings have been made.
\<close>

record rstate =
  resolver :: Resolver
  resolution :: Resolution
  sends :: nat
  ticks :: nat

text \<open>
  \<^verbatim>\<open>_Resolution.__init__\<close>. The planner \<^verbatim>\<open>_get_qnames_to_try\<close> is missing from the
  sources: its result, the list of candidate names, is the argument \<open>candidates\<close>.
  The query type and class are taken as already converted, and not meta.
\<close>

definition Resolution_init :: "name list \<Rightarrow> int \<Rightarrow> int \<Rightarrow> bool \<Rightarrow> bool \<Rightarrow> Resolution" where
  "Resolution_init candidates rdtype rdclass tcp raise_no_answer =
     \<lparr>qnames_to_try = candidates, qnames = candidates, rn_rdtype = rdtype,
      rn_rdclass = rdclass, rn_tcp = tcp, raise_on_no_answer = raise_no_answer,
      nxdomain_responses = [], rn_qname = name_empty, errors = []\<rparr>"

text \<open>
  The \<^verbatim>\<open>while len(self.qnames) > 0\<close> loop of \<^verbatim>\<open>next_request\<close>, on the names still in
  \<^verbatim>\<open>self.qnames\<close>. The popped name is the local \<^verbatim>\<open>qname\<close>; \<^verbatim>\<open>self.qname\<close> is not
  assigned. \<^verbatim>\<open>self.resolver.cache.get\<close> on a resolver without cache raises
  \<^verbatim>\<open>AttributeError\<close>.
\<close>

fun next_request_loop ::
  "env \<Rightarrow> name list \<Rightarrow> rstate \<Rightarrow> (py_error + request option \<times> Answer option) \<times> rstate" where
  "next_request_loop e [] st = (Inr (None, None), st)"
| "next_request_loop e (qname # rest) st =
     (let st1 = st\<lparr>resolution := (resolution st)\<lparr>qnames := rest\<rparr>\<rparr>;
          key = (qname, rn_rdtype (resolution st1), rn_rdclass (resolution st1))
      in case rs_cache (resolver st1) of
           None \<Rightarrow> (Inl AttributeError, st1)
         | Some c \<Rightarrow>
             (case cache_get c (env_clock e (ticks st1)) (env_clock e (ticks st1 + 1)) key of
                (ans, c') \<Rightarrow>
                  (let st2 = st1\<lparr>resolver := (resolver st1)\<lparr>rs_cache := Some c'\<rparr>,
                                 ticks := ticks st1
                                   + cache_get_readings c (env_clock e (ticks st1)) key\<rparr>
                   in case ans of
                        Some a \<Rightarrow>
                          if a_rrset a = None \<and> msg_rcode (a_response a) = NXDOMAIN
                          then next_request_loop e rest
                                 (st2\<lparr>resolution := (resolution st2)
                                    \<lparr>nxdomain_responses :=
                                       AList.update qname (a_response a)
                                         (nxdomain_responses (resolution st2))\<rparr>\<rparr>)
                          else (Inr (None, Some a), st2)
                      | None \<Rightarrow>
                          (Inr (Some \<lparr>rq_qname = qname,
                                     rq_rdtype = rn_rdtype (resolution st2),
                                     rq_rdclass = rn_rdclass (resolution st2)\<rparr>, None),
                           st2))))"

definition next_request ::
  "env \<Rightarrow> rstate \<Rightarrow> (py_error + request option \<times> Answer option) \<times> rstate" where
  "next_request e st = next_request_loop e (qnames (resolution st)) st"

text \<open>
  Modelled from the spec: the getter of the \<^verbatim>\<open>nameservers\<close> property is missing from the
  sources; it returns the resolver's list of nameservers, which \<^verbatim>\<open>_get_next_nameserver\<close>
  rotates in place (pop-front then append) when \<^verbatim>\<open>rotate\<close> is set. On an empty list
  both \<^verbatim>\<open>pop(0)\<close> and \<^verbatim>\<open>[0]\<close> raise \<^verbatim>\<open>IndexError\<close>.
\<close>

definition get_next_nameserver :: "rstate \<Rightarrow> py_error + Nameserver \<times> rstate" where
  "get_next_nameserver st =
     (case rs_nameservers (resolver st) of
        [] \<Rightarrow> Inl IndexError
      | ns # rest \<Rightarrow>
          if rs_rotate (resolver st)
          then Inr (ns, st\<lparr>resolver := (resolver st)\<lparr>rs_nameservers := rest @ [ns]\<rparr>\<rparr>)
          else Inr (ns, st))"

text \<open>
  Modelled from the spec: \<^verbatim>\<open>dns.flags\<close> is missing from the sources; \<^verbatim>\<open>TC\<close> is the
  truncation bit of the header flags.
\<close>

definition TC :: int where
  "TC = 0x0200"

text \<open>
  The body of the \<^verbatim>\<open>try\<close>: TCP when asked for, else UDP and, on a truncated response,
  TCP to the same server. An exception of either call is the outcome.
\<close>

definition dispatch :: "env \<Rightarrow> bool \<Rightarrow> request \<Rightarrow> Nameserver \<Rightarrow> rstate \<Rightarrow> outcome \<times> rstate" where
  "dispatch e tcp rq ns st =
     (if tcp then (env_tcp e (sends st) rq ns, st\<lparr>sends := sends st + 1\<rparr>)
      else (case env_udp e (sends st) rq ns of
              Response r \<Rightarrow>
                if msg_flags r AND TC \<noteq> 0
                then (env_tcp e (sends st + 1) rq ns, st\<lparr>sends := sends st + 2\<rparr>)
                else (Response r, st\<lparr>sends := sends st + 1\<rparr>)
            | other \<Rightarrow> (other, st\<lparr>sends := sends st + 1\<rparr>)))"

text \<open>\<^verbatim>\<open>lifetime or self.lifetime\<close>: a lifetime of \<^verbatim>\<open>None\<close> or 0 gives the resolver's.\<close>

definition effective_lifetime :: "real option \<Rightarrow> Resolver \<Rightarrow> real" where
  "effective_lifetime lifetime r =
     (case lifetime of None \<Rightarrow> rs_lifetime r | Some l \<Rightarrow> if l = 0 then rs_lifetime r else l)"

definition add_error :: "Nameserver \<Rightarrow> string \<Rightarrow> rstate \<Rightarrow> rstate" where
  "add_error ns msg st =
     st\<lparr>resolution := (resolution st)\<lparr>errors := errors (resolution st) @ [(ns, msg)]\<rparr>\<rparr>"

text \<open>
  The \<^verbatim>\<open>while not done\<close> loop. The first argument bounds the number of iterations; the
  result is \<open>None\<close> when the bound is reached before the loop ends. Both \<^verbatim>\<open>except\<close>
  clauses end in \<^verbatim>\<open>continue\<close>: the next iteration starts without the test of the
  elapsed time, which stands after the \<^verbatim>\<open>try\<close> statement.
\<close>

fun server_loop ::
  "nat \<Rightarrow> env \<Rightarrow> bool \<Rightarrow> real option \<Rightarrow> real \<Rightarrow> request \<Rightarrow> rstate \<Rightarrow>
   (resolve_exc + message \<times> Nameserver \<times> rstate) option" where
  "server_loop 0 e tcp lifetime start rq st = None"
| "server_loop (Suc fuel) e tcp lifetime start rq st =
     (case get_next_nameserver st of
        Inl err \<Rightarrow> Some (Inl (Raise_py err))
      | Inr (ns, st1) \<Rightarrow>
          (case dispatch e tcp rq ns st1 of
             (Timed_out, st2) \<Rightarrow>
               server_loop fuel e tcp lifetime start rq (add_error ns ''timed out'' st2)
           | (Raised msg, st2) \<Rightarrow>
               server_loop fuel e tcp lifetime start rq (add_error ns msg st2)
           | (Response response, st2) \<Rightarrow>
               (let finished = (msg_rcode response = NOERROR \<or> msg_rcode response = NXDOMAIN);
                    now = env_clock e (ticks st2);
                    st3 = st2\<lparr>ticks := ticks st2 + 1\<rparr>
                in if now - start > effective_lifetime lifetime (resolver st3)
                   then Some (Inl (Raise_LifetimeTimeout (rs_lifetime (resolver st3))
                                     (errors (resolution st3))))
                   else if finished then Some (Inr (response, ns, st3))
                   else server_loop fuel e tcp lifetime start rq st3)))"

text \<open>
  \<^verbatim>\<open>if answer:\<close> asks \<^verbatim>\<open>Answer.__len__\<close>: an answer is true when it has a non-empty
  RRset; \<^verbatim>\<open>None\<close> is false.
\<close>

definition answer_truthy :: "Answer option \<Rightarrow> bool" where
  "answer_truthy ans =
     (case ans of
        None \<Rightarrow> False
      | Some a \<Rightarrow> (case a_rrset a of None \<Rightarrow> False | Some rs \<Rightarrow> rr_rdatas rs \<noteq> []))"

text \<open>
  The last statements of the outer loop on a response that is not NXDOMAIN: build the
  \<^verbatim>\<open>Answer\<close> (one clock reading), put it in the cache (one more, in \<^verbatim>\<open>_maybe_clean\<close>)
  and return it. A returned answer comes with the resolver as the call leaves it.
\<close>

definition make_answer ::
  "env \<Rightarrow> int \<Rightarrow> int \<Rightarrow> message \<Rightarrow> Nameserver \<Rightarrow> rstate \<Rightarrow> resolve_exc + Answer \<times> Resolver" where
  "make_answer e rdtype rdclass response ns st =
     (case env_chaining e response of
        (cname, rs, minimum_ttl) \<Rightarrow>
          (let a = \<lparr>a_qname = rn_qname (resolution st), a_rdtype = rdtype,
                    a_rdclass = rdclass, a_response = response,
                    a_nameserver = Some (address ns), a_canonical_name = cname,
                    a_rrset = rs, expiration = env_clock e (ticks st) + minimum_ttl\<rparr>
           in case rs_cache (resolver st) of
                None \<Rightarrow> Inl (Raise_py AttributeError)
              | Some c \<Rightarrow>
                  Inr (a, (resolver st)
                            \<lparr>rs_cache :=
                               Some (cache_put c (env_clock e (ticks st + 1))
                                       (rn_qname (resolution st), rdtype, rdclass) a)\<rparr>)))"

text \<open>
  The \<^verbatim>\<open>while True\<close> loop of \<^verbatim>\<open>resolve\<close>, with the same bound on iterations. An
  NXDOMAIN response is stored under \<^verbatim>\<open>resolution.qname\<close>, and the NXDOMAIN exception
  takes \<^verbatim>\<open>resolution.qnames\<close>, the list \<^verbatim>\<open>next_request\<close> pops from.
\<close>

fun resolve_loop ::
  "nat \<Rightarrow> env \<Rightarrow> int \<Rightarrow> int \<Rightarrow> bool \<Rightarrow> real option \<Rightarrow> real \<Rightarrow> rstate \<Rightarrow>
   (resolve_exc + Answer \<times> Resolver) option" where
  "resolve_loop 0 e rdtype rdclass tcp lifetime start st = None"
| "resolve_loop (Suc fuel) e rdtype rdclass tcp lifetime start st =
     (case next_request e st of
        (Inl err, st1) \<Rightarrow> Some (Inl (Raise_py err))
      | (Inr (req, ans), st1) \<Rightarrow>
          (case (if answer_truthy ans then ans else None) of
             Some a \<Rightarrow> Some (Inr (a, resolver st1))
           | None \<Rightarrow>
               (case req of
                  None \<Rightarrow>
                    Some (Inl (Raise_NXDOMAIN (qnames (resolution st1))
                                 (nxdomain_responses (resolution st1))))
                | Some rq \<Rightarrow>
                    (case server_loop (Suc fuel) e tcp lifetime start rq st1 of
                       None \<Rightarrow> None
                     | Some (Inl exc) \<Rightarrow> Some (Inl exc)
                     | Some (Inr (response, ns, st2)) \<Rightarrow>
                         if msg_rcode response = NXDOMAIN
                         then resolve_loop fuel e rdtype rdclass tcp lifetime start
                                (st2\<lparr>resolution := (resolution st2)
                                   \<lparr>nxdomain_responses :=
                                      AList.update (rn_qname (resolution st2)) response
                                        (nxdomain_responses (resolution st2))\<rparr>\<rparr>)
                         else Some (make_answer e rdtype rdclass response ns st2)))))"

text \<open>
  \<^verbatim>\<open>Resolver.resolve\<close>: \<open>None\<close> when the call has not returned within \<open>fuel\<close>
  iterations, else the answer or the exception. The first clock reading is \<^verbatim>\<open>start\<close>.
\<close>

definition resolve ::
  "nat \<Rightarrow> env \<Rightarrow> Resolver \<Rightarrow> name list \<Rightarrow> int \<Rightarrow> int \<Rightarrow> bool \<Rightarrow> bool \<Rightarrow> real option \<Rightarrow>
   (resolve_exc + Answer \<times> Resolver) option" where
  "resolve fuel e r candidates rdtype rdclass tcp raise_no_answer lifetime =
     (let st = \<lparr>resolver = r,
                resolution = Resolution_init candidates rdtype rdclass tcp raise_no_answer,
                sends = 0, ticks = 1\<rparr>
      in resolve_loop fuel e rdtype rdclass tcp lifetime (env_clock e 0) st)"

text \<open>
  The states of a call in which the resolver has a nameserver and a cache with no entry,
  and \<^verbatim>\<open>resolution.qname\<close> is still the empty name.
\<close>

definition nx_ready :: "rstate \<Rightarrow> bool" where
  "nx_ready st =
     (rs_nameservers (resolver st) \<noteq> []
      \<and> (\<exists>c. rs_cache (resolver st) = Some c \<and> data c = Map.empty)
      \<and> rn_qname (resolution st) = name_empty)"

section \<open>Sample values\<close>

text \<open>Concrete values on which the properties below are evaluated.\<close>

definition sample_response :: "Rcode \<Rightarrow> message" where
  "sample_response rc = \<lparr>msg_id = 1, msg_flags = 0, msg_rcode = rc, msg_answer = []\<rparr>"

definition sample_answer :: "name \<Rightarrow> real \<Rightarrow> Answer" where
  "sample_answer qn ex =
     \<lparr>a_qname = qn, a_rdtype = 1, a_rdclass = 1, a_response = sample_response NOERROR,
      a_nameserver = None, a_canonical_name = qn,
      a_rrset = Some \<lparr>rr_name = qn, rr_rdclass = 1, rr_rdtype = 1,
                       rr_rdatas = [Other_rdata ''addr'']\<rparr>,
      expiration = ex\<rparr>"

definition sample_renderer :: "name Renderer" where
  "sample_renderer =
     \<lparr>output_io = \<lparr>buf = [0, 0, 0, 0, 0, 0, 0, 0, 0, 0, 0, 0, 3, 119, 119, 119, 0], pos = 17\<rparr>,
      rid = 1, rflags = 0, max_size = 512, origin = None,
      compress = [[''''] \<mapsto> 0, [''www'', ''''] \<mapsto> 12],
      rsection = 1, counts = [1, 0, 0, 0], mac = [], reserved = 0, was_padded = False\<rparr>"

definition sample_cache :: "'k Cache" where
  "sample_cache =
     \<lparr>statistics = \<lparr>hits = 0, misses = 0\<rparr>, data = Map.empty, cleaning_interval = 300,
      next_cleaning = 300\<rparr>"

definition sample_lru :: "name LRUCache" where
  "sample_lru =
     \<lparr>lru_statistics = \<lparr>hits = 0, misses = 0\<rparr>,
      lru_data = [([''a'', ''''], \<lparr>node_value = sample_answer [''a'', ''''] 50, node_hits = 2\<rparr>),
                  ([''b'', ''''], \<lparr>node_value = sample_answer [''b'', ''''] 50, node_hits = 0\<rparr>)],
      lru_max_size = 2,
      lru_list = [[''b'', ''''], [''a'', '''']]\<rparr>"

definition sample_soa :: "int \<Rightarrow> rrset" where
  "sample_soa n =
     \<lparr>rr_name = [''example'', ''''], rr_rdclass = 1, rr_rdtype = SOA,
      rr_rdatas = [SOA_rdata n]\<rparr>"

definition sample_inbound :: Inbound where
  "sample_inbound =
     \<lparr>txn = None, ib_rdtype = IXFR, ib_serial = Some 100, is_udp = False,
      soa_rdataset = None, ib_done = False, expecting_SOA = False, delete_mode = False\<rparr>"

definition sample_nameserver :: Nameserver where
  "sample_nameserver = \<lparr>address = ''192.0.2.53'', ns_port = 53\<rparr>"

definition sample_resolver :: Resolver where
  "sample_resolver =
     \<lparr>rs_nameservers = [sample_nameserver], rs_timeout = 2, rs_lifetime = 5,
      rs_rotate = False, rs_cache = Some sample_cache\<rparr>"

text \<open>A server that never answers: every transport call raises the per-call timeout.\<close>

definition blackhole_env :: env where
  "blackhole_env =
     \<lparr>env_udp = (\<lambda>n rq ns. Timed_out), env_tcp = (\<lambda>n rq ns. Timed_out),
      env_clock = (\<lambda>n. 2 * real n),
      env_chaining = (\<lambda>m. (name_empty, None, 0))\<rparr>"

text \<open>A server that answers every query with the same NXDOMAIN response.\<close>

definition nxdomain_env :: env where
  "nxdomain_env =
     \<lparr>env_udp = (\<lambda>n rq ns. Response (sample_response NXDOMAIN)),
      env_tcp = (\<lambda>n rq ns. Response (sample_response NXDOMAIN)),
      env_clock = (\<lambda>n. real n / 1000),
      env_chaining = (\<lambda>m. (name_empty, None, 0))\<rparr>"

text \<open>
  The same server, the response to the \<open>n\<close>-th transport call carrying the message
  id \<open>n\<close>. A clock reading takes a millisecond.
\<close>

definition numbered_nxdomain_env :: env where
  "numbered_nxdomain_env =
     \<lparr>env_udp = (\<lambda>n rq ns. Response ((sample_response NXDOMAIN)\<lparr>msg_id := int n\<rparr>)),
      env_tcp = (\<lambda>n rq ns. Response ((sample_response NXDOMAIN)\<lparr>msg_id := int n\<rparr>)),
      env_clock = (\<lambda>n. real n / 1000),
      env_chaining = (\<lambda>m. (name_empty, None, 0))\<rparr>"

text \<open>The candidates of \<^verbatim>\<open>foo\<close> with the search list \<^verbatim>\<open>[a.test., b.test.]\<close>.\<close>

definition sample_candidates :: "name list" where
  "sample_candidates =
     [[''foo'', ''a'', ''test'', ''''], [''foo'', ''b'', ''test'', ''''], [''foo'', '''']]"

text \<open>A server that answers every query with SERVFAIL; a clock reading takes two seconds.\<close>

definition servfail_env :: env where
  "servfail_env =
     \<lparr>env_udp = (\<lambda>n rq ns. Response (sample_response SERVFAIL)),
      env_tcp = (\<lambda>n rq ns. Response (sample_response SERVFAIL)),
      env_clock = (\<lambda>n. 2 * real n),
      env_chaining = (\<lambda>m. (name_empty, None, 0))\<rparr>"

section \<open>Verified properties\<close>

subsection \<open>Result codes\<close>

lemma to_flags_in_range:
  "0 \<le> r \<Longrightarrow> r \<le> 4095 \<Longrightarrow> to_flags r = Inr (r AND 0x000f, push_bit 20 (r AND 0xff0))"
  by (simp add: to_flags_def)

lemma rcode_bits_roundtrip:
  assumes "0 \<le> r" and "r \<le> 4095"
  shows "((r AND 0x000f) OR ((drop_bit 20 (push_bit 20 (r AND 0xff0))) AND 0xff0)) = (r::int)"
proof -
  have "r AND (15 OR 4080) = (r AND 15) OR (r AND 4080)"
    by (rule bit.conj_disj_distrib)
  moreover have "(15 OR 4080 :: int) = mask 12"
    by (simp add: mask_eq_exp_minus_1)
  moreover have "r AND mask 12 = take_bit 12 r"
    by (simp add: take_bit_eq_mask)
  moreover have "take_bit 12 r = r"
    using assms by (simp add: take_bit_int_eq_self)
  ultimately have "(r AND 15) OR (r AND 4080) = r"
    by simp
  then show ?thesis
    by (simp add: drop_bit_push_bit)
qed

text \<open>
  On the whole range the two functions compose to the enum call alone: the bit
  arithmetic gives \<open>r\<close> back, and what is left is \<^verbatim>\<open>Rcode(r)\<close>.
\<close>

lemma from_flags_of_to_flags_eq:
  assumes "0 \<le> r" and "r \<le> 4095"
  shows "from_flags_of_to_flags r = Rcode_call r"
  using assms rcode_bits_roundtrip [OF assms]
  by (simp add: from_flags_of_to_flags_def to_flags_def from_flags_def Let_def)

lemma Rcode_call_value: "Rcode_call v = Inr m \<Longrightarrow> rcode_value m = v"
  by (auto simp: Rcode_call_def Rcode_members_def split: option.splits if_splits)

lemma IntEnum_make_id: "IntEnum_make v = v"
  using Rcode_call_value [of v] by (cases "Rcode_call v") (simp_all add: IntEnum_make_def)

text \<open>
  Claim C3. The round trip \<^verbatim>\<open>from_flags(*to_flags(r)) == r\<close> is claimed for every \<open>r\<close>
  from 0 to 4095. At \<open>r = 12\<close>, a value in that range that no member of \<^verbatim>\<open>Rcode\<close> has,
  \<^verbatim>\<open>to_flags\<close> returns \<open>(12, 0)\<close> and \<^verbatim>\<open>from_flags(12, 0)\<close> raises \<^verbatim>\<open>ValueError\<close>
  instead of returning 12.
\<close>

theorem from_flags_rejects_unassigned:
  "to_flags 12 = Inr (12, 0) \<and> from_flags 12 0 = Inl ValueError
   \<and> from_flags_of_to_flags 12 = Inl ValueError"
  by (simp add: from_flags_of_to_flags_def to_flags_def from_flags_def Rcode_call_def
      Rcode_members_def)

subsection \<open>TTL text\<close>

text \<open>
  Claim C4, as amended. \<^verbatim>\<open>from_text('1w2d3h')\<close> returns 788400 (604800 + 2 * 86400 +
  3 * 3600), \<^verbatim>\<open>from_text('5m')\<close> returns 300, \<^verbatim>\<open>from_text('86400')\<close> returns 86400 and
  \<^verbatim>\<open>from_text('1x')\<close> raises \<^verbatim>\<open>BadTTL\<close>.
\<close>

theorem from_text_scenarios:
  "from_text ''1w2d3h'' = Inr 788400 \<and> from_text ''5m'' = Inr 300
   \<and> from_text ''86400'' = Inr 86400 \<and> from_text ''1x'' = Inl BadTTL"
  by (simp add: from_text_def isdigit_def isalpha_def ascii_digit_def py_int_def MAX_TTL_def)

text \<open>
  Claim C4 as stated gives 777600 for \<^verbatim>\<open>1w2d3h\<close>; that is the value of \<^verbatim>\<open>1w2d\<close>,
  and not what the function returns.
\<close>

theorem from_text_1w2d3h_counterexample: "from_text ''1w2d3h'' \<noteq> Inr 777600"
  by (simp add: from_text_def isdigit_def isalpha_def ascii_digit_def py_int_def MAX_TTL_def)

subsection \<open>Renderer sections\<close>

lemma set_sections_Cons_fst:
  "fst (set_sections r (s # ss)) =
     fst (set_section r s) # fst (set_sections (snd (set_section r s)) ss)"
  by (simp split: prod.splits)

lemma set_sections_Cons_snd:
  "snd (set_sections r (s # ss)) = snd (set_sections (snd (set_section r s)) ss)"
  by (simp split: prod.splits)

lemma set_section_fst:
  "fst (set_section r s) = (if s < rsection r then Inl FormError else Inr ())"
  by (simp add: set_section_def)

lemma set_section_rsection: "rsection (snd (set_section r s)) = max (rsection r) s"
  by (simp add: set_section_def max_def)

lemma set_sections_length: "length (fst (set_sections r ss)) = length ss"
  by (induction ss arbitrary: r)
    (simp_all add: set_sections_Cons_fst del: set_sections.simps(2))

lemma set_sections_final: "rsection (snd (set_sections r ss)) = foldl max (rsection r) ss"
  by (induction ss arbitrary: r)
    (simp_all add: set_sections_Cons_snd set_section_rsection del: set_sections.simps(2))

lemma set_sections_nth:
  "i < length ss \<Longrightarrow>
   fst (set_sections r ss) ! i =
     (if ss ! i < foldl max (rsection r) (take i ss) then Inl FormError else Inr ())"
proof (induction ss arbitrary: r i)
  case Nil
  then show ?case by simp
next
  case (Cons s ss)
  show ?case
  proof (cases i)
    case 0
    then show ?thesis
      by (simp only: set_sections_Cons_fst set_section_fst nth_Cons_0 take_0 foldl.simps)
  next
    case (Suc j)
    with Cons.prems have j: "j < length ss" by simp
    show ?thesis
      using Cons.IH [OF j, of "snd (set_section r s)"] Suc
      by (simp only: set_sections_Cons_fst set_section_rsection nth_Cons_Suc take_Suc_Cons
          foldl.simps)
  qed
qed

text \<open>
  Claim C7. Setting a section that is not below the current one succeeds and makes it the
  current section (so a section may be skipped, and the current one entered again);
  setting a section below the current one raises \<^verbatim>\<open>FormError\<close> and leaves the renderer as
  it was. In a sequence of writes, the write number \<open>i\<close> fails exactly when its section is
  below the largest section reached before it.
\<close>

theorem set_section_order:
  "(rsection r \<le> s \<longrightarrow> set_section r s = (Inr (), r\<lparr>rsection := s\<rparr>))
   \<and> (s' < rsection r \<longrightarrow> set_section r s' = (Inl FormError, r))
   \<and> (i < length ss \<longrightarrow>
        fst (set_sections r ss) ! i =
          (if ss ! i < foldl max (rsection r) (take i ss) then Inl FormError else Inr ()))"
  using set_sections_nth [of i ss r] by (simp add: set_section_def)

theorem set_section_order_witness:
  "rsection sample_renderer \<le> 3
   \<and> set_section sample_renderer 3 = (Inr (), sample_renderer\<lparr>rsection := 3\<rparr>)
   \<and> 0 < rsection sample_renderer
   \<and> set_section sample_renderer 0 = (Inl FormError, sample_renderer)
   \<and> fst (set_sections sample_renderer [1, 3, 2]) ! 2 = Inl FormError"
  using set_section_order [of sample_renderer 3 0 2 "[1, 3, 2]"]
  by (simp add: sample_renderer_def)

subsection \<open>Renderer rollback\<close>

text \<open>
  Claim C8. For an offset from 0 to the length of the buffer, \<^verbatim>\<open>_rollback(where)\<close> returns
  normally; the buffer is then its former prefix of that length, a compression entry with
  an offset at or beyond \<^verbatim>\<open>where\<close> is gone, an entry with a smaller offset is as it was,
  and no entry has appeared.
\<close>

theorem rollback_effect:
  assumes "0 \<le> wher" and "wher \<le> int (length (buf (output_io r)))"
  shows "fst (rollback r wher) = Inr ()
    \<and> buf (output_io (snd (rollback r wher))) = take (nat wher) (buf (output_io r))
    \<and> length (buf (output_io (snd (rollback r wher)))) = nat wher
    \<and> (\<forall>k v. compress r k = Some v \<and> wher \<le> v \<longrightarrow> compress (snd (rollback r wher)) k = None)
    \<and> (\<forall>k v. compress r k = Some v \<and> v < wher \<longrightarrow> compress (snd (rollback r wher)) k = Some v)
    \<and> (\<forall>k. compress r k = None \<longrightarrow> compress (snd (rollback r wher)) k = None)"
  using assms by (auto simp: rollback_def seek_io_def truncate_io_def)

theorem rollback_effect_witness:
  "fst (rollback sample_renderer 12) = Inr ()
   \<and> buf (output_io (snd (rollback sample_renderer 12))) = [0, 0, 0, 0, 0, 0, 0, 0, 0, 0, 0, 0]
   \<and> compress (snd (rollback sample_renderer 12)) [''www'', ''''] = None
   \<and> compress (snd (rollback sample_renderer 12)) [''''] = Some 0"
proof -
  have h1: "(0::int) \<le> 12"
    by simp
  have h2: "12 \<le> int (length (buf (output_io sample_renderer)))"
    by (simp add: sample_renderer_def)
  have c1: "compress sample_renderer [''www'', ''''] = Some 12"
    by (simp add: sample_renderer_def)
  have c2: "compress sample_renderer [''''] = Some 0"
    by (simp add: sample_renderer_def)
  have b: "take 12 (buf (output_io sample_renderer)) = [0, 0, 0, 0, 0, 0, 0, 0, 0, 0, 0, 0]"
    by (simp add: sample_renderer_def)
  show ?thesis
    using rollback_effect [OF h1 h2] c1 c2 b by simp
qed

subsection \<open>The simple cache\<close>

lemma maybe_clean_statistics: "statistics (maybe_clean c now) = statistics c"
  by (simp add: maybe_clean_def)

lemma maybe_clean_keeps:
  "data c k = Some a \<Longrightarrow> now < expiration a \<Longrightarrow> data (maybe_clean c now) k = Some a"
  by (simp add: maybe_clean_def)

lemma maybe_clean_data_cases:
  "data (maybe_clean c now) k = None \<or> data (maybe_clean c now) k = data c k"
  by (simp add: maybe_clean_def split: option.splits)

lemma cache_put_data: "data (cache_put c t k a) k = Some a"
  by (simp add: cache_put_def Let_def)

lemma cache_put_statistics: "statistics (cache_put c t k a) = statistics c"
  by (simp add: cache_put_def Let_def maybe_clean_statistics)

lemma cache_get_hit:
  assumes "data c k = Some a" and "now1 < expiration a" and "now2 < expiration a"
  shows "fst (cache_get c now1 now2 k) = Some a"
    and "hits (statistics (snd (cache_get c now1 now2 k))) = hits (statistics c) + 1"
    and "misses (statistics (snd (cache_get c now1 now2 k))) = misses (statistics c)"
  using assms maybe_clean_keeps [OF assms(1,2)]
  by (simp_all add: cache_get_def Let_def maybe_clean_statistics)

lemma cache_get_expired:
  assumes "data c k = Some a" and "expiration a \<le> now2"
  shows "fst (cache_get c now1 now2 k) = None"
    and "misses (statistics (snd (cache_get c now1 now2 k))) = misses (statistics c) + 1"
    and "hits (statistics (snd (cache_get c now1 now2 k))) = hits (statistics c)"
  using assms maybe_clean_data_cases [of c now1 k]
  by (auto simp: cache_get_def Let_def maybe_clean_statistics split: option.splits)

lemma cache_get_missing:
  assumes "data c k = None"
  shows "fst (cache_get c now1 now2 k) = None"
    and "misses (statistics (snd (cache_get c now1 now2 k))) = misses (statistics c) + 1"
    and "hits (statistics (snd (cache_get c now1 now2 k))) = hits (statistics c)"
  using assms maybe_clean_data_cases [of c now1 k]
  by (auto simp: cache_get_def Let_def maybe_clean_statistics split: option.splits)

text \<open>
  Claim C5. After \<^verbatim>\<open>put(k, a)\<close>, a \<^verbatim>\<open>get(k)\<close> whose clock readings \<open>t1\<close>, \<open>t2\<close> are both
  before \<^verbatim>\<open>a.expiration\<close> returns \<open>a\<close> and adds one to the hits; a \<^verbatim>\<open>get(k)\<close> whose
  expiry test reads a time \<open>u2\<close> at or after \<^verbatim>\<open>a.expiration\<close> returns nothing and adds
  one to the misses; and a \<^verbatim>\<open>get\<close> of a key that is not stored returns nothing, as a
  miss (the function has no exception to raise).
\<close>

theorem cache_put_then_get:
  "(t1 < expiration a \<and> t2 < expiration a \<longrightarrow>
      fst (cache_get (cache_put c t k a) t1 t2 k) = Some a
      \<and> hits (statistics (snd (cache_get (cache_put c t k a) t1 t2 k)))
          = hits (statistics c) + 1
      \<and> misses (statistics (snd (cache_get (cache_put c t k a) t1 t2 k)))
          = misses (statistics c))
   \<and> (expiration a \<le> u2 \<longrightarrow>
      fst (cache_get (cache_put c t k a) u1 u2 k) = None
      \<and> misses (statistics (snd (cache_get (cache_put c t k a) u1 u2 k)))
          = misses (statistics c) + 1
      \<and> hits (statistics (snd (cache_get (cache_put c t k a) u1 u2 k)))
          = hits (statistics c))
   \<and> (data c k' = None \<longrightarrow>
      fst (cache_get c v1 v2 k') = None
      \<and> misses (statistics (snd (cache_get c v1 v2 k'))) = misses (statistics c) + 1)"
proof -
  have d: "data (cache_put c t k a) k = Some a"
    by (rule cache_put_data)
  have s: "statistics (cache_put c t k a) = statistics c"
    by (rule cache_put_statistics)
  show ?thesis
    using cache_get_hit [OF d] cache_get_expired [OF d] cache_get_missing [of c k']
    by (simp add: s)
qed

theorem cache_put_then_get_witness:
  "fst (cache_get (cache_put sample_cache 1 [''a'', ''''] (sample_answer [''a'', ''''] 10))
          2 3 [''a'', '''']) = Some (sample_answer [''a'', ''''] 10)
   \<and> hits (statistics (snd (cache_get
          (cache_put sample_cache 1 [''a'', ''''] (sample_answer [''a'', ''''] 10))
          2 3 [''a'', '''']))) = 1
   \<and> fst (cache_get (cache_put sample_cache 1 [''a'', ''''] (sample_answer [''a'', ''''] 10))
          10 10 [''a'', '''']) = None
   \<and> misses (statistics (snd (cache_get
          (cache_put sample_cache 1 [''a'', ''''] (sample_answer [''a'', ''''] 10))
          10 10 [''a'', '''']))) = 1
   \<and> fst (cache_get sample_cache 2 3 [''b'', '''']) = None
   \<and> misses (statistics (snd (cache_get sample_cache 2 3 [''b'', '''']))) = 1"
proof -
  have e: "expiration (sample_answer [''a'', ''''] 10) = 10"
    by (simp add: sample_answer_def)
  have m: "data sample_cache [''b'', ''''] = None"
    by (simp add: sample_cache_def)
  have z: "hits (statistics sample_cache) = 0" "misses (statistics sample_cache) = 0"
    by (simp_all add: sample_cache_def)
  show ?thesis
    using cache_put_then_get [of 2 "sample_answer [''a'', ''''] 10" 3 sample_cache 1
        "[''a'', '''']" 10 10 "[''b'', '''']" 2 3] e m z
    by simp
qed

subsection \<open>Inbound zone transfer\<close>

text \<open>
  Claim C6. For an IXFR \<^verbatim>\<open>Inbound\<close> created with base serial \<open>s\<close>, when the first RR of
  the first message is an SOA whose serial is at most \<open>s\<close> in serial arithmetic, the
  first \<^verbatim>\<open>process_message\<close> returns \<^verbatim>\<open>True\<close>, \<^verbatim>\<open>done\<close> is set, and the transaction just
  created has had no call made on it: no commit.
\<close>

theorem ixfr_no_change:
  assumes "Inbound_init IXFR (Some s) udp = Inr ib"
    and "msg_answer m = rs # rest"
    and "rr_rdtype rs = SOA"
    and "rr_rdatas rs = SOA_rdata n # others"
    and "serial_le n s"
  shows "fst (process_message serial_le ib m) = Inr True
    \<and> ib_done (snd (process_message serial_le ib m))
    \<and> txn (snd (process_message serial_le ib m)) = Some []
    \<and> Txn_commit \<notin> set (the (txn (snd (process_message serial_le ib m))))"
  using assms
  by (auto simp: Inbound_init_def process_message_def rrset_serial_def IXFR_def AXFR_def Let_def)

theorem ixfr_no_change_witness:
  "fst (process_message (\<le>) sample_inbound
          ((sample_response NOERROR)\<lparr>msg_answer := [sample_soa 100]\<rparr>)) = Inr True
   \<and> ib_done (snd (process_message (\<le>) sample_inbound
          ((sample_response NOERROR)\<lparr>msg_answer := [sample_soa 100]\<rparr>)))
   \<and> txn (snd (process_message (\<le>) sample_inbound
          ((sample_response NOERROR)\<lparr>msg_answer := [sample_soa 100]\<rparr>))) = Some []"
proof -
  have h1: "Inbound_init IXFR (Some 100) False = Inr sample_inbound"
    by (simp add: Inbound_init_def sample_inbound_def)
  have h2: "msg_answer ((sample_response NOERROR)\<lparr>msg_answer := [sample_soa 100]\<rparr>)
            = sample_soa 100 # []"
    by simp
  have h3: "rr_rdtype (sample_soa 100) = SOA"
    by (simp add: sample_soa_def)
  have h4: "rr_rdatas (sample_soa 100) = SOA_rdata 100 # []"
    by (simp add: sample_soa_def)
  have h5: "(100::int) \<le> 100"
    by simp
  show ?thesis
    using ixfr_no_change [OF h1 h2 h3 h4, of "(\<le>)", OF h5]
    by simp
qed

subsection \<open>Names\<close>

lemma validate_loop_Inr:
  "n = i + int (length ls) \<Longrightarrow>
   (validate_loop i n ls = Inr ()) =
     ((\<forall>l\<in>set ls. length l \<le> 63) \<and> (\<forall>j. Suc j < length ls \<longrightarrow> ls ! j \<noteq> []))"
proof (induction ls arbitrary: i)
  case Nil
  then show ?case by simp
next
  case (Cons l ls)
  have step: "n = (i + 1) + int (length ls)"
    using Cons.prems by simp
  have nonfinal: "(i \<noteq> n - 1) = (ls \<noteq> [])"
    using Cons.prems by (cases ls) auto
  have idx: "(\<forall>j. Suc j < length (l # ls) \<longrightarrow> (l # ls) ! j \<noteq> []) =
             ((ls \<noteq> [] \<longrightarrow> l \<noteq> []) \<and> (\<forall>j. Suc j < length ls \<longrightarrow> ls ! j \<noteq> []))"
    (is "?L = ?R")
  proof
    assume L: ?L
    have "ls \<noteq> [] \<longrightarrow> l \<noteq> []"
      using L [rule_format, of 0] by (cases ls) auto
    moreover have "\<forall>j. Suc j < length ls \<longrightarrow> ls ! j \<noteq> []"
      using L [rule_format, of "Suc _"] by auto
    ultimately show ?R by simp
  next
    assume R: ?R
    show ?L
    proof (intro allI impI)
      fix j assume "Suc j < length (l # ls)"
      then show "(l # ls) ! j \<noteq> []"
        using R by (cases j) auto
    qed
  qed
  show ?case
    using Cons.IH [OF step] nonfinal idx by auto
qed

lemma validate_loop_errors:
  "validate_loop i n ls = Inl e \<Longrightarrow> e = LabelTooLong \<or> e = EmptyLabel"
  by (induction ls arbitrary: i) (auto split: if_splits)

lemma validate_loop_LabelTooLong:
  "validate_loop i n ls = Inl LabelTooLong \<Longrightarrow> \<exists>l\<in>set ls. 63 < length l"
  by (induction ls arbitrary: i) (auto split: if_splits)

lemma validate_loop_EmptyLabel:
  "n = i + int (length ls) \<Longrightarrow> validate_loop i n ls = Inl EmptyLabel \<Longrightarrow>
   \<exists>j. Suc j < length ls \<and> ls ! j = []"
proof (induction ls arbitrary: i)
  case Nil
  then show ?case by simp
next
  case (Cons l ls)
  have step: "n = (i + 1) + int (length ls)"
    using Cons.prems by simp
  show ?case
  proof (cases "l = [] \<and> i \<noteq> n - 1")
    case True
    then have "ls \<noteq> []" using Cons.prems(1) by (cases ls) auto
    then have "Suc 0 < length (l # ls) \<and> (l # ls) ! 0 = []"
      using True by (cases ls) auto
    then show ?thesis by blast
  next
    case False
    then have "validate_loop (i + 1) n ls = Inl EmptyLabel"
      using Cons.prems(2) by (auto split: if_splits)
    from Cons.IH [OF step this] obtain j where "Suc j < length ls \<and> ls ! j = []"
      by blast
    then have "Suc (Suc j) < length (l # ls) \<and> (l # ls) ! (Suc j) = []"
      by simp
    then show ?thesis by blast
  qed
qed

lemma name_hash_lower:
  "name_hash labels =
     foldl (\<lambda>h l. foldl (\<lambda>h c. h + (push_bit 3 h + of_char c)) h l) 0 (map bytes_lower labels)"
  by (simp add: name_hash_def foldl_map)

text \<open>The three structural invariants of a name, on its tuple of labels.\<close>

lemma validate_labels_Inr:
  "(validate_labels ls = Inr ()) =
     (total_length ls \<le> 255 \<and> (\<forall>l\<in>set ls. length l \<le> 63)
      \<and> (\<forall>j. Suc j < length ls \<longrightarrow> ls ! j \<noteq> []))"
  using validate_loop_Inr [of "int (length ls)" 0 ls]
  by (auto simp: validate_labels_def)

lemma validate_labels_Inl:
  assumes "validate_labels ls = Inl e"
  shows "(e = NameTooLong \<and> 255 < total_length ls)
    \<or> (e = LabelTooLong \<and> total_length ls \<le> 255 \<and> (\<exists>l\<in>set ls. 63 < length l))
    \<or> (e = EmptyLabel \<and> total_length ls \<le> 255 \<and> (\<exists>j. Suc j < length ls \<and> ls ! j = []))"
proof (cases "255 < total_length ls")
  case True
  then show ?thesis using assms by (simp add: validate_labels_def)
next
  case False
  then have loop: "validate_loop 0 (int (length ls)) ls = Inl e"
    using assms by (simp add: validate_labels_def)
  from validate_loop_errors [OF loop] show ?thesis
  proof
    assume "e = LabelTooLong"
    then show ?thesis
      using validate_loop_LabelTooLong [of 0 "int (length ls)" ls] loop False by auto
  next
    assume "e = EmptyLabel"
    then show ?thesis
      using validate_loop_EmptyLabel [of "int (length ls)" 0 ls] loop False by auto
  qed
qed

lemma validate_labels_cases:
  "validate_labels ls = Inr () \<or> validate_labels ls = Inl NameTooLong
   \<or> validate_labels ls = Inl LabelTooLong \<or> validate_labels ls = Inl EmptyLabel"
proof (cases "validate_labels ls")
  case (Inl e)
  then show ?thesis using validate_labels_Inl [OF Inl] by auto
next
  case (Inr u)
  then show ?thesis by simp
qed

lemma Name_init_Inr: "Name_init args = Inr labels \<Longrightarrow> validate_labels labels = Inr ()"
  by (auto simp: Name_init_def split: sum.splits)

lemma validate_loop_LabelTooLong_iff:
  "n = i + int (length ls) \<Longrightarrow>
   (validate_loop i n ls = Inl LabelTooLong) =
     (\<exists>pre l post. ls = pre @ l # post \<and> 63 < length l
        \<and> (\<forall>x\<in>set pre. x \<noteq> [] \<and> length x \<le> 63))"
proof (induction ls arbitrary: i)
  case Nil
  then show ?case by simp
next
  case (Cons a ls)
  have step: "n = (i + 1) + int (length ls)"
    using Cons.prems by simp
  have nonfinal: "(i \<noteq> n - 1) = (ls \<noteq> [])"
    using Cons.prems by (cases ls) auto
  let ?R = "\<lambda>xs. \<exists>pre l post. xs = pre @ l # post \<and> 63 < length l
        \<and> (\<forall>x\<in>set pre. x \<noteq> [] \<and> length x \<le> 63)"
  show ?case
  proof (cases "63 < length a")
    case True
    have "a # ls = [] @ a # ls \<and> 63 < length a \<and> (\<forall>x\<in>set []. x \<noteq> [] \<and> length x \<le> 63)"
      using True by simp
    then have "?R (a # ls)" by blast
    then show ?thesis using True by simp
  next
    case short: False
    have tail: "?R (a # ls) = (a \<noteq> [] \<and> ?R ls)"
    proof
      assume "?R (a # ls)"
      then obtain pre l post where d: "a # ls = pre @ l # post" "63 < length l"
        "\<forall>x\<in>set pre. x \<noteq> [] \<and> length x \<le> 63"
        by blast
      show "a \<noteq> [] \<and> ?R ls"
      proof (cases pre)
        case Nil
        then show ?thesis using d short by simp
      next
        case (Cons b pre')
        then have "a = b" "ls = pre' @ l # post" using d(1) by simp_all
        then show ?thesis using d(2,3) Cons by auto
      qed
    next
      assume r: "a \<noteq> [] \<and> ?R ls"
      then obtain pre l post where d: "ls = pre @ l # post" "63 < length l"
        "\<forall>x\<in>set pre. x \<noteq> [] \<and> length x \<le> 63"
        by blast
      have "a # ls = (a # pre) @ l # post \<and> 63 < length l
          \<and> (\<forall>x\<in>set (a # pre). x \<noteq> [] \<and> length x \<le> 63)"
        using d r short by simp
      then show "?R (a # ls)" by blast
    qed
    show ?thesis
    proof (cases "a = []")
      case True
      have "\<not> ?R ls" if "ls = []" using that by simp
      then show ?thesis
        using True short nonfinal tail Cons.IH [OF step] by (cases "ls = []") auto
    next
      case False
      then show ?thesis
        using short tail Cons.IH [OF step] by simp
    qed
  qed
qed

lemma validate_loop_EmptyLabel_iff:
  "n = i + int (length ls) \<Longrightarrow>
   (validate_loop i n ls = Inl EmptyLabel) =
     (\<exists>pre post. ls = pre @ [] # post \<and> post \<noteq> []
        \<and> (\<forall>x\<in>set pre. x \<noteq> [] \<and> length x \<le> 63))"
proof (induction ls arbitrary: i)
  case Nil
  then show ?case by simp
next
  case (Cons a ls)
  have step: "n = (i + 1) + int (length ls)"
    using Cons.prems by simp
  have nonfinal: "(i \<noteq> n - 1) = (ls \<noteq> [])"
    using Cons.prems by (cases ls) auto
  let ?R = "\<lambda>xs. \<exists>pre post. xs = pre @ [] # post \<and> post \<noteq> []
        \<and> (\<forall>x\<in>set pre. x \<noteq> [] \<and> length x \<le> 63)"
  have head: "?R (a # ls)" if "a = []" "ls \<noteq> []"
  proof -
    have "a # ls = [] @ [] # ls \<and> ls \<noteq> [] \<and> (\<forall>x\<in>set []. x \<noteq> [] \<and> length x \<le> 63)"
      using that by simp
    then show ?thesis by blast
  qed
  have tail: "?R (a # ls) = ((a = [] \<and> ls \<noteq> []) \<or> (a \<noteq> [] \<and> length a \<le> 63 \<and> ?R ls))"
  proof
    assume "?R (a # ls)"
    then obtain pre post where d: "a # ls = pre @ [] # post" "post \<noteq> []"
      "\<forall>x\<in>set pre. x \<noteq> [] \<and> length x \<le> 63"
      by blast
    show "(a = [] \<and> ls \<noteq> []) \<or> (a \<noteq> [] \<and> length a \<le> 63 \<and> ?R ls)"
    proof (cases pre)
      case Nil
      then show ?thesis using d by simp
    next
      case (Cons b pre')
      then have "a = b" "ls = pre' @ [] # post" using d(1) by simp_all
      then show ?thesis using d(2,3) Cons by auto
    qed
  next
    assume r: "(a = [] \<and> ls \<noteq> []) \<or> (a \<noteq> [] \<and> length a \<le> 63 \<and> ?R ls)"
    then show "?R (a # ls)"
    proof
      assume "a = [] \<and> ls \<noteq> []"
      then show ?thesis using head by simp
    next
      assume r2: "a \<noteq> [] \<and> length a \<le> 63 \<and> ?R ls"
      then obtain pre post where d: "ls = pre @ [] # post" "post \<noteq> []"
        "\<forall>x\<in>set pre. x \<noteq> [] \<and> length x \<le> 63"
        by blast
      have "a # ls = (a # pre) @ [] # post \<and> post \<noteq> []
          \<and> (\<forall>x\<in>set (a # pre). x \<noteq> [] \<and> length x \<le> 63)"
        using d r2 by simp
      then show ?thesis by blast
    qed
  qed
  show ?case
  proof (cases "63 < length a")
    case True
    then show ?thesis using tail by auto
  next
    case short: False
    show ?thesis
    proof (cases "a = [] \<and> ls \<noteq> []")
      case True
      then show ?thesis using short nonfinal tail by simp
    next
      case False
      have "\<not> ?R ls" if "ls = []" using that by simp
      then show ?thesis
        using False short nonfinal tail Cons.IH [OF step] by (cases "ls = []") auto
    qed
  qed
qed

lemma Name_init_converted:
  "convert_labels args = Inr ls \<Longrightarrow>
   Name_init args = (case validate_labels ls of Inl e \<Rightarrow> Inl e | Inr u \<Rightarrow> Inr ls)"
  by (simp add: Name_init_def)

lemma Name_init_conversion_error:
  "convert_labels args = Inl e \<Longrightarrow> Name_init args = Inl e"
  by (simp add: Name_init_def)

lemma Name_init_Inr_converted:
  "Name_init args = Inr labels \<Longrightarrow> convert_labels args = Inr labels"
  by (auto simp: Name_init_def split: sum.splits)

lemma convert_labels_Bytes: "convert_labels (map Bytes ls) = Inr ls"
  by (induction ls) (simp_all add: maybe_convert_to_binary_def)

text \<open>
  Claim C9, as amended. A name that \<^verbatim>\<open>Name(labels)\<close> constructs is the converted tuple
  of labels, with labels of at most 63 octets, an encoded length (each label plus its
  length octet) of at most 255, and no empty label but the last. A label that cannot be
  converted makes the constructor raise the conversion's exception. On converted labels
  \<open>ls\<close> the constructor succeeds exactly when the three invariants hold, and raises
  otherwise: \<^verbatim>\<open>NameTooLong\<close> exactly when the encoded length exceeds 255 (the first
  test, whatever the labels are); else \<^verbatim>\<open>LabelTooLong\<close> exactly when the first label
  that is above 63 octets or empty comes above 63 octets; else \<^verbatim>\<open>EmptyLabel\<close> exactly
  when that first label is empty and not the last. Every tuple of byte labels converts
  to itself. The hash is the same for two names whose labels agree after ASCII
  lowercasing.
\<close>

theorem name_invariants:
  "(Name_init args = Inr labels \<longrightarrow>
      convert_labels args = Inr labels
      \<and> (\<forall>l\<in>set labels. length l \<le> 63) \<and> total_length labels \<le> 255
      \<and> (\<forall>j. Suc j < length labels \<longrightarrow> labels ! j \<noteq> []))
   \<and> (convert_labels args = Inl e \<longrightarrow> Name_init args = Inl e)
   \<and> (convert_labels args = Inr ls \<longrightarrow>
        ((Name_init args = Inr ls) =
           ((\<forall>l\<in>set ls. length l \<le> 63) \<and> total_length ls \<le> 255
            \<and> (\<forall>j. Suc j < length ls \<longrightarrow> ls ! j \<noteq> [])))
        \<and> (Name_init args = Inr ls \<or> Name_init args = Inl NameTooLong
            \<or> Name_init args = Inl LabelTooLong \<or> Name_init args = Inl EmptyLabel)
        \<and> ((Name_init args = Inl NameTooLong) = (255 < total_length ls))
        \<and> ((Name_init args = Inl LabelTooLong) =
             (total_length ls \<le> 255
              \<and> (\<exists>pre l post. ls = pre @ l # post \<and> 63 < length l
                    \<and> (\<forall>x\<in>set pre. x \<noteq> [] \<and> length x \<le> 63))))
        \<and> ((Name_init args = Inl EmptyLabel) =
             (total_length ls \<le> 255
              \<and> (\<exists>pre post. ls = pre @ [] # post \<and> post \<noteq> []
                    \<and> (\<forall>x\<in>set pre. x \<noteq> [] \<and> length x \<le> 63)))))
   \<and> convert_labels (map Bytes bs) = Inr bs
   \<and> (map bytes_lower n1 = map bytes_lower n2 \<longrightarrow> name_hash n1 = name_hash n2)"
proof (intro conjI impI)
  assume ok: "Name_init args = Inr labels"
  then show c: "convert_labels args = Inr labels"
    by (rule Name_init_Inr_converted)
  have "validate_labels labels = Inr ()"
    using ok by (rule Name_init_Inr)
  then show "\<forall>l\<in>set labels. length l \<le> 63" "total_length labels \<le> 255"
    "\<forall>j. Suc j < length labels \<longrightarrow> labels ! j \<noteq> []"
    by (simp_all add: validate_labels_Inr)
next
  assume "convert_labels args = Inl e"
  then show "Name_init args = Inl e"
    by (rule Name_init_conversion_error)
next
  assume c: "convert_labels args = Inr ls"
  note n = Name_init_converted [OF c]
  have loop: "validate_labels ls =
      (if 255 < total_length ls then Inl NameTooLong
       else validate_loop 0 (int (length ls)) ls)"
    by (simp add: validate_labels_def)
  show "(Name_init args = Inr ls) =
        ((\<forall>l\<in>set ls. length l \<le> 63) \<and> total_length ls \<le> 255
         \<and> (\<forall>j. Suc j < length ls \<longrightarrow> ls ! j \<noteq> []))"
    using validate_labels_Inr [of ls] n by (cases "validate_labels ls") auto
  show "Name_init args = Inr ls \<or> Name_init args = Inl NameTooLong
        \<or> Name_init args = Inl LabelTooLong \<or> Name_init args = Inl EmptyLabel"
    using validate_labels_cases [of ls] n by auto
  show "(Name_init args = Inl NameTooLong) = (255 < total_length ls)"
  proof (cases "255 < total_length ls")
    case True
    then show ?thesis using n loop by simp
  next
    case False
    have "validate_loop 0 (int (length ls)) ls \<noteq> Inl NameTooLong"
      using validate_loop_errors [of 0 "int (length ls)" ls NameTooLong] by auto
    then have "Name_init args \<noteq> Inl NameTooLong"
      using False n loop by (cases "validate_loop 0 (int (length ls)) ls") auto
    then show ?thesis using False by simp
  qed
  show "(Name_init args = Inl LabelTooLong) =
        (total_length ls \<le> 255
         \<and> (\<exists>pre l post. ls = pre @ l # post \<and> 63 < length l
               \<and> (\<forall>x\<in>set pre. x \<noteq> [] \<and> length x \<le> 63)))"
  proof (cases "255 < total_length ls")
    case True
    then show ?thesis using n loop by simp
  next
    case False
    then have "(Name_init args = Inl LabelTooLong)
        = (validate_loop 0 (int (length ls)) ls = Inl LabelTooLong)"
      using n loop by (cases "validate_loop 0 (int (length ls)) ls") auto
    then show ?thesis
      using False validate_loop_LabelTooLong_iff [of "int (length ls)" 0 ls] by simp
  qed
  show "(Name_init args = Inl EmptyLabel) =
        (total_length ls \<le> 255
         \<and> (\<exists>pre post. ls = pre @ [] # post \<and> post \<noteq> []
               \<and> (\<forall>x\<in>set pre. x \<noteq> [] \<and> length x \<le> 63)))"
  proof (cases "255 < total_length ls")
    case True
    then show ?thesis using n loop by simp
  next
    case False
    then have "(Name_init args = Inl EmptyLabel)
        = (validate_loop 0 (int (length ls)) ls = Inl EmptyLabel)"
      using n loop by (cases "validate_loop 0 (int (length ls)) ls") auto
    then show ?thesis
      using False validate_loop_EmptyLabel_iff [of "int (length ls)" 0 ls] by simp
  qed
next
  show "convert_labels (map Bytes bs) = Inr bs"
    by (rule convert_labels_Bytes)
next
  assume "map bytes_lower n1 = map bytes_lower n2"
  then show "name_hash n1 = name_hash n2"
    by (simp add: name_hash_lower)
qed

theorem name_invariants_witness:
  "Name_init [Bytes ''www'', Str [101, 120], Bytes ''''] = Inr [''www'', ''ex'', '''']
   \<and> Name_init [Str [119, 233]] = Inl UnicodeEncodeError
   \<and> Name_init [Bytes (replicate 300 CHR ''a'')] = Inl NameTooLong
   \<and> Name_init [Bytes ''a'', Bytes (replicate 64 CHR ''a''), Bytes ''''] = Inl LabelTooLong
   \<and> Name_init [Bytes ''a'', Bytes '''', Bytes ''b''] = Inl EmptyLabel
   \<and> name_hash [''WWW'', ''Example'', ''''] = name_hash [''www'', ''eXAMPLE'', '''']"
proof -
  have c1: "convert_labels [Bytes ''www'', Str [101, 120], Bytes ''''] = Inr [''www'', ''ex'', '''']"
    by code_simp
  have i1: "(\<forall>l\<in>set [''www'', ''ex'', '''']. length l \<le> 63)
      \<and> total_length [''www'', ''ex'', ''''] \<le> 255
      \<and> (\<forall>j. Suc j < length [''www'', ''ex'', ''''] \<longrightarrow> [''www'', ''ex'', ''''] ! j \<noteq> [])"
    by (simp add: total_length_def less_Suc_eq)
  have c2: "convert_labels [Str [119, 233]] = Inl UnicodeEncodeError"
    by (simp add: maybe_convert_to_binary_def)
  have c3: "convert_labels [Bytes (replicate 300 CHR ''a'')] = Inr [replicate 300 CHR ''a'']"
    by (simp add: maybe_convert_to_binary_def)
  have t3: "255 < total_length [replicate 300 CHR ''a'']"
    by (simp add: total_length_def)
  have c4: "convert_labels [Bytes ''a'', Bytes (replicate 64 CHR ''a''), Bytes '''']
            = Inr [''a'', replicate 64 CHR ''a'', '''']"
    by (simp add: maybe_convert_to_binary_def)
  have t4: "total_length [''a'', replicate 64 CHR ''a'', ''''] \<le> 255
      \<and> (\<exists>pre l post. [''a'', replicate 64 CHR ''a'', ''''] = pre @ l # post \<and> 63 < length l
            \<and> (\<forall>x\<in>set pre. x \<noteq> [] \<and> length x \<le> 63))"
  proof
    show "total_length [''a'', replicate 64 CHR ''a'', ''''] \<le> 255"
      by (simp add: total_length_def)
    have "[''a'', replicate 64 CHR ''a'', ''''] = [''a''] @ replicate 64 CHR ''a'' # ['''']
        \<and> 63 < length (replicate 64 CHR ''a'')
        \<and> (\<forall>x\<in>set [''a'']. x \<noteq> [] \<and> length x \<le> 63)"
      by simp
    then show "\<exists>pre l post. [''a'', replicate 64 CHR ''a'', ''''] = pre @ l # post
        \<and> 63 < length l \<and> (\<forall>x\<in>set pre. x \<noteq> [] \<and> length x \<le> 63)"
      by (intro exI)
  qed
  have c5: "convert_labels [Bytes ''a'', Bytes '''', Bytes ''b''] = Inr [''a'', '''', ''b'']"
    by (simp add: maybe_convert_to_binary_def)
  have t5: "total_length [''a'', '''', ''b''] \<le> 255
      \<and> (\<exists>pre post. [''a'', '''', ''b''] = pre @ [] # post \<and> post \<noteq> []
            \<and> (\<forall>x\<in>set pre. x \<noteq> [] \<and> length x \<le> 63))"
  proof
    show "total_length [''a'', '''', ''b''] \<le> 255"
      by (simp add: total_length_def)
    have "[''a'', '''', ''b''] = [''a''] @ [] # [''b''] \<and> [''b''] \<noteq> []
        \<and> (\<forall>x\<in>set [''a'']. x \<noteq> [] \<and> length x \<le> 63)"
      by simp
    then show "\<exists>pre post. [''a'', '''', ''b''] = pre @ [] # post \<and> post \<noteq> []
        \<and> (\<forall>x\<in>set pre. x \<noteq> [] \<and> length x \<le> 63)"
      by (intro exI)
  qed
  have l: "map bytes_lower [''WWW'', ''Example'', '''']
           = map bytes_lower [''www'', ''eXAMPLE'', '''']"
    by code_simp
  note k1 = name_invariants [of "[Bytes ''www'', Str [101, 120], Bytes '''']" _ _
      "[''www'', ''ex'', '''']", THEN conjunct2, THEN conjunct2, THEN conjunct1, THEN mp, OF c1]
  have w1: "Name_init [Bytes ''www'', Str [101, 120], Bytes ''''] = Inr [''www'', ''ex'', '''']"
    by (rule k1 [THEN conjunct1, THEN iffD2, OF i1])
  have w2: "Name_init [Str [119, 233]] = Inl UnicodeEncodeError"
    by (rule name_invariants [of "[Str [119, 233]]" _ UnicodeEncodeError, THEN conjunct2,
          THEN conjunct1, THEN mp, OF c2])
  note k3 = name_invariants [of "[Bytes (replicate 300 CHR ''a'')]" _ _
      "[replicate 300 CHR ''a'']", THEN conjunct2, THEN conjunct2, THEN conjunct1, THEN mp, OF c3]
  have w3: "Name_init [Bytes (replicate 300 CHR ''a'')] = Inl NameTooLong"
    by (rule k3 [THEN conjunct2, THEN conjunct2, THEN conjunct1, THEN iffD2, OF t3])
  note k4 = name_invariants [of "[Bytes ''a'', Bytes (replicate 64 CHR ''a''), Bytes '''']" _ _
      "[''a'', replicate 64 CHR ''a'', '''']", THEN conjunct2, THEN conjunct2, THEN conjunct1,
      THEN mp, OF c4]
  have w4: "Name_init [Bytes ''a'', Bytes (replicate 64 CHR ''a''), Bytes '''']
            = Inl LabelTooLong"
    by (rule k4 [THEN conjunct2, THEN conjunct2, THEN conjunct2, THEN conjunct1, THEN iffD2,
          OF t4])
  note k5 = name_invariants [of "[Bytes ''a'', Bytes '''', Bytes ''b'']" _ _
      "[''a'', '''', ''b'']", THEN conjunct2, THEN conjunct2, THEN conjunct1, THEN mp, OF c5]
  have w5: "Name_init [Bytes ''a'', Bytes '''', Bytes ''b''] = Inl EmptyLabel"
    by (rule k5 [THEN conjunct2, THEN conjunct2, THEN conjunct2, THEN conjunct2, THEN iffD2,
          OF t5])
  have w6: "name_hash [''WWW'', ''Example'', ''''] = name_hash [''www'', ''eXAMPLE'', '''']"
    by (rule name_invariants [THEN conjunct2, THEN conjunct2, THEN conjunct2, THEN conjunct2,
          THEN mp, OF l])
  show ?thesis
    by (intro conjI) (rule w1 w2 w3 w4 w5 w6)+
qed

text \<open>
  Claim C9 as stated has a label above 63 octets raise \<^verbatim>\<open>LabelTooLong\<close>, and an empty
  label before the last raise \<^verbatim>\<open>EmptyLabel\<close>. A single label of 255 octets raises
  \<^verbatim>\<open>NameTooLong\<close>; an empty label before the last raises \<^verbatim>\<open>LabelTooLong\<close> when a label
  above 63 octets comes before it, and \<^verbatim>\<open>NameTooLong\<close> when the name is too long.
\<close>

theorem name_exception_counterexample:
  "63 < length (replicate 255 CHR ''a'')
   \<and> Name_init [Bytes (replicate 255 CHR ''a'')] = Inl NameTooLong
   \<and> Name_init [Bytes (replicate 64 CHR ''a''), Bytes '''', Bytes ''b''] = Inl LabelTooLong
   \<and> Name_init [Bytes '''', Bytes (replicate 255 CHR ''a'')] = Inl NameTooLong"
  by (simp add: Name_init_def maybe_convert_to_binary_def validate_labels_def total_length_def)

subsection \<open>The LRU cache\<close>

text \<open>
  Claim C10. A \<^verbatim>\<open>put\<close> on a key that is present returns, stores the new value in the
  key's node, moves the key to the front of the list and adds one to the node's hit
  count, so that \<^verbatim>\<open>get_hits_for_key\<close> is one more than before; a successful \<^verbatim>\<open>get\<close>
  adds one to the same count.
\<close>

theorem lru_put_existing_counts_hit:
  assumes "map_of (lru_data c) key = Some node"
  shows "(\<exists>c'. lru_put c key v = Some c'
      \<and> map_of (lru_data c') key
          = Some (node\<lparr>node_value := v, node_hits := node_hits node + 1\<rparr>)
      \<and> hd (lru_list c') = key
      \<and> get_hits_for_key c' key = get_hits_for_key c key + 1)
    \<and> (now < expiration (node_value node) \<longrightarrow>
        fst (lru_get c now key) = Some (node_value node)
        \<and> get_hits_for_key (snd (lru_get c now key)) key = get_hits_for_key c key + 1)"
  using assms
  by (simp add: lru_put_def lru_get_def move_to_front_def get_hits_for_key_def update_conv'
      Let_def)

theorem lru_put_existing_counts_hit_witness:
  "get_hits_for_key sample_lru [''a'', ''''] = 2
   \<and> (\<exists>c'. lru_put sample_lru [''a'', ''''] (sample_answer [''a'', ''''] 99) = Some c'
        \<and> hd (lru_list c') = [''a'', '''']
        \<and> get_hits_for_key c' [''a'', ''''] = 3)
   \<and> get_hits_for_key (snd (lru_get sample_lru 7 [''a'', ''''])) [''a'', ''''] = 3"
proof -
  have h: "map_of (lru_data sample_lru) [''a'', '''']
           = Some \<lparr>node_value = sample_answer [''a'', ''''] 50, node_hits = 2\<rparr>"
    by (simp add: sample_lru_def)
  have g: "get_hits_for_key sample_lru [''a'', ''''] = 2"
    by (simp add: get_hits_for_key_def h)
  have e: "(7::real) < expiration (sample_answer [''a'', ''''] 50)"
    by (simp add: sample_answer_def)
  show ?thesis
    using lru_put_existing_counts_hit [OF h, of "sample_answer [''a'', ''''] 99" 7] g e
    by auto
qed

subsection \<open>The resolver against a server that never answers\<close>

lemma get_next_nameserver_nonempty:
  assumes "rs_nameservers (resolver st) \<noteq> []"
  shows "\<exists>ns st1. get_next_nameserver st = Inr (ns, st1)
           \<and> rs_nameservers (resolver st1) \<noteq> []"
  using assms by (cases "rs_nameservers (resolver st)") (auto simp: get_next_nameserver_def)

lemma dispatch_blackhole:
  assumes "\<forall>n rq ns. env_udp e n rq ns = Timed_out"
    and "\<forall>n rq ns. env_tcp e n rq ns = Timed_out"
  shows "\<exists>st2. dispatch e tcp rq ns st = (Timed_out, st2) \<and> resolver st2 = resolver st"
  using assms by (simp add: dispatch_def)

lemma add_error_resolver: "resolver (add_error ns msg st) = resolver st"
  by (simp add: add_error_def)

lemma server_loop_blackhole:
  assumes udp: "\<forall>n rq ns. env_udp e n rq ns = Timed_out"
    and tcp: "\<forall>n rq ns. env_tcp e n rq ns = Timed_out"
  shows "rs_nameservers (resolver st) \<noteq> [] \<Longrightarrow>
         server_loop fuel e tcp lifetime start rq st = None"
proof (induction fuel arbitrary: st)
  case 0
  show ?case by simp
next
  case (Suc fuel)
  from get_next_nameserver_nonempty [OF Suc.prems]
  obtain ns st1 where g: "get_next_nameserver st = Inr (ns, st1)"
    and n1: "rs_nameservers (resolver st1) \<noteq> []"
    by blast
  from dispatch_blackhole [OF udp tcp]
  obtain st2 where d: "dispatch e tcp rq ns st1 = (Timed_out, st2)"
    and r2: "resolver st2 = resolver st1"
    by blast
  have "rs_nameservers (resolver (add_error ns ''timed out'' st2)) \<noteq> []"
    using n1 r2 by (simp add: add_error_resolver)
  from Suc.IH [OF this] show ?case
    using g d by simp
qed

lemma next_request_miss:
  assumes "qnames (resolution st) = q # rest"
    and "rs_cache (resolver st) = Some c"
    and "data c (q, rn_rdtype (resolution st), rn_rdclass (resolution st)) = None"
  shows "\<exists>rq st1. next_request e st = (Inr (Some rq, None), st1)
           \<and> rs_nameservers (resolver st1) = rs_nameservers (resolver st)"
proof -
  let ?key = "(q, rn_rdtype (resolution st), rn_rdclass (resolution st))"
  obtain ans c' where cg: "cache_get c (env_clock e (ticks st)) (env_clock e (ticks st + 1)) ?key
      = (ans, c')"
    by (cases "cache_get c (env_clock e (ticks st)) (env_clock e (ticks st + 1)) ?key")
  have "ans = None"
    using cache_get_missing(1) [OF assms(3), of "env_clock e (ticks st)" "env_clock e (ticks st + 1)"] cg
    by simp
  then show ?thesis
    using assms(1,2) cg by (simp add: next_request_def Let_def)
qed

text \<open>
  Claim C1 says that a resolve against a black-hole server ends with
  \<^verbatim>\<open>LifetimeTimeout\<close>, the elapsed time being tested on every iteration of the
  per-server loop. In the code an iteration that ends in a per-call timeout goes on to
  the next one without the test: when every transport call times out, the resolver has a
  nameserver and a cache, and the first candidate is not cached, \<^verbatim>\<open>resolve\<close> has not
  returned after any number of iterations. It raises nothing, whatever the clock reads.
\<close>

theorem resolve_blackhole_never_returns:
  assumes "\<forall>n rq ns. env_udp e n rq ns = Timed_out"
    and "\<forall>n rq ns. env_tcp e n rq ns = Timed_out"
    and "rs_nameservers r \<noteq> []"
    and "rs_cache r = Some c"
    and "data c (q, rdtype, rdclass) = None"
  shows "resolve fuel e r (q # cands) rdtype rdclass tcp raise_no_answer lifetime = None"
proof (cases fuel)
  case 0
  then show ?thesis by (simp add: resolve_def)
next
  case (Suc n)
  let ?st = "\<lparr>resolver = r,
               resolution = Resolution_init (q # cands) rdtype rdclass tcp raise_no_answer,
               sends = 0, ticks = 1\<rparr>"
  have "\<exists>rq st1. next_request e ?st = (Inr (Some rq, None), st1)
           \<and> rs_nameservers (resolver st1) = rs_nameservers (resolver ?st)"
    by (rule next_request_miss [where q = q and rest = cands and c = c])
      (simp_all add: Resolution_init_def assms)
  then obtain rq st1 where nr: "next_request e ?st = (Inr (Some rq, None), st1)"
    and ns: "rs_nameservers (resolver st1) = rs_nameservers r"
    by auto
  have "server_loop (Suc n) e tcp lifetime (env_clock e 0) rq st1 = None"
    by (rule server_loop_blackhole [OF assms(1,2)]) (simp add: ns assms(3))
  then show ?thesis
    using nr Suc by (simp add: resolve_def answer_truthy_def)
qed

theorem resolve_blackhole_never_returns_witness:
  "resolve 1000 blackhole_env sample_resolver sample_candidates 1 1 False True (Some 5) = None"
proof -
  have h1: "\<forall>n rq ns. env_udp blackhole_env n rq ns = Timed_out"
    by (simp add: blackhole_env_def)
  have h2: "\<forall>n rq ns. env_tcp blackhole_env n rq ns = Timed_out"
    by (simp add: blackhole_env_def)
  have h3: "rs_nameservers sample_resolver \<noteq> []"
    by (simp add: sample_resolver_def)
  have h4: "rs_cache sample_resolver = Some sample_cache"
    by (simp add: sample_resolver_def)
  have h5: "data (sample_cache :: CacheKey Cache) ([''foo'', ''a'', ''test'', ''''], 1, 1) = None"
    by (simp add: sample_cache_def)
  show ?thesis
    using resolve_blackhole_never_returns [OF h1 h2 h3 h4 h5]
    by (simp add: sample_candidates_def)
qed

text \<open>
  The test of the elapsed time is reached by an iteration that ends without exception:
  against a server answering SERVFAIL the same call ends with \<^verbatim>\<open>LifetimeTimeout\<close>.
\<close>

lemma resolve_servfail_lifetime:
  "resolve 10 servfail_env sample_resolver sample_candidates 1 1 False True None
   = Some (Inl (Raise_LifetimeTimeout 5 []))"
  by (simp add: resolve_def Resolution_init_def sample_resolver_def sample_candidates_def
      servfail_env_def next_request_def cache_get_def cache_get_readings_def maybe_clean_def sample_cache_def
      get_next_nameserver_def dispatch_def TC_def sample_response_def effective_lifetime_def
      answer_truthy_def eval_nat_numeral Let_def name_empty_def sample_nameserver_def)

subsection \<open>The resolver when every candidate name is answered NXDOMAIN\<close>

lemma maybe_clean_empty: "data c = Map.empty \<Longrightarrow> data (maybe_clean c now) = Map.empty"
  by (auto simp: maybe_clean_def)

lemma cache_get_empty:
  assumes "data c = Map.empty"
  shows "fst (cache_get c t1 t2 k) = None" and "data (snd (cache_get c t1 t2 k)) = Map.empty"
  using maybe_clean_empty [OF assms, of t1] by (simp_all add: cache_get_def Let_def)

lemma next_request_nx:
  assumes "nx_ready st" and "qnames (resolution st) = q # rest"
  shows "\<exists>rq st1. next_request e st = (Inr (Some rq, None), st1) \<and> nx_ready st1
           \<and> resolution st1 = (resolution st)\<lparr>qnames := rest\<rparr>
           \<and> rs_lifetime (resolver st1) = rs_lifetime (resolver st)
           \<and> ticks st1 = ticks st + 1"
proof -
  from assms(1) obtain c where c: "rs_cache (resolver st) = Some c" "data c = Map.empty"
    by (auto simp: nx_ready_def)
  let ?key = "(q, rn_rdtype (resolution st), rn_rdclass (resolution st))"
  let ?g = "cache_get c (env_clock e (ticks st)) (env_clock e (ticks st + 1)) ?key"
  obtain ans c' where cg: "?g = (ans, c')"
    by (cases ?g)
  have "ans = None" "data c' = Map.empty"
    using cache_get_empty [OF c(2), of "env_clock e (ticks st)" "env_clock e (ticks st + 1)" ?key] cg
    by simp_all
  moreover have "cache_get_readings c (env_clock e (ticks st)) ?key = 1"
    using maybe_clean_empty [OF c(2), of "env_clock e (ticks st)"]
    by (simp add: cache_get_readings_def)
  ultimately show ?thesis
    using assms c cg by (simp add: next_request_def Let_def nx_ready_def)
qed

lemma server_loop_nx:
  assumes udp: "\<forall>n rq ns. env_udp e n rq ns = Response r"
    and rc: "msg_rcode r = NXDOMAIN" and tc: "msg_flags r AND TC = 0"
    and clock: "env_clock e (ticks st) - start \<le> effective_lifetime lifetime (resolver st)"
    and ready: "nx_ready st"
  shows "\<exists>ns st2. server_loop (Suc fuel) e False lifetime start rq st = Some (Inr (r, ns, st2))
           \<and> nx_ready st2 \<and> resolution st2 = resolution st
           \<and> effective_lifetime lifetime (resolver st2) = effective_lifetime lifetime (resolver st)
           \<and> ticks st2 = ticks st + 1"
proof -
  from ready obtain ns rest where ns: "rs_nameservers (resolver st) = ns # rest"
    by (cases "rs_nameservers (resolver st)") (auto simp: nx_ready_def)
  define st1 where "st1 =
    (if rs_rotate (resolver st)
     then st\<lparr>resolver := (resolver st)\<lparr>rs_nameservers := rest @ [ns]\<rparr>\<rparr> else st)"
  have g: "get_next_nameserver st = Inr (ns, st1)"
    using ns by (simp add: get_next_nameserver_def st1_def)
  have r1: "nx_ready st1" "resolution st1 = resolution st"
    "effective_lifetime lifetime (resolver st1) = effective_lifetime lifetime (resolver st)"
    "ticks st1 = ticks st"
    using ns ready
    by (auto simp: st1_def nx_ready_def effective_lifetime_def split: option.splits)
  have d: "dispatch e False rq ns st1 = (Response r, st1\<lparr>sends := sends st1 + 1\<rparr>)"
    using udp tc by (simp add: dispatch_def)
  have "\<not> env_clock e (ticks st1) - start > effective_lifetime lifetime (resolver st1)"
    using clock r1(3,4) by (simp add: not_less)
  then show ?thesis
    using g d rc r1 by (simp add: Let_def nx_ready_def)
qed

lemma update_same_twice: "AList.update k v (AList.update k v al) = AList.update k v al"
  by (induction al) auto

lemma resolve_loop_nx:
  assumes udp: "\<forall>n rq ns. env_udp e n rq ns = Response r"
    and rc: "msg_rcode r = NXDOMAIN" and tc: "msg_flags r AND TC = 0"
  shows "nx_ready st \<Longrightarrow> qnames (resolution st) = cs \<Longrightarrow>
         \<forall>n. ticks st \<le> n \<and> n < ticks st + 2 * length cs \<longrightarrow>
             env_clock e n - start \<le> effective_lifetime lifetime (resolver st) \<Longrightarrow>
         resolve_loop (Suc (length cs) + extra) e rdtype rdclass False lifetime start st
         = Some (Inl (Raise_NXDOMAIN []
                        (if cs = [] then nxdomain_responses (resolution st)
                         else AList.update name_empty r (nxdomain_responses (resolution st)))))"
proof (induction cs arbitrary: st)
  case Nil
  then show ?case
    by (simp add: next_request_def answer_truthy_def)
next
  case (Cons q rest)
  from next_request_nx [OF Cons.prems(1,2)]
  obtain rq st1 where nr: "next_request e st = (Inr (Some rq, None), st1)"
    and r1: "nx_ready st1" "resolution st1 = (resolution st)\<lparr>qnames := rest\<rparr>"
      "rs_lifetime (resolver st1) = rs_lifetime (resolver st)" "ticks st1 = ticks st + 1"
    by blast
  have e1: "effective_lifetime lifetime (resolver st1) = effective_lifetime lifetime (resolver st)"
    using r1(3) by (simp add: effective_lifetime_def split: option.splits)
  have clock1: "env_clock e (ticks st1) - start \<le> effective_lifetime lifetime (resolver st1)"
    using Cons.prems(3) [rule_format, of "ticks st1"] r1(4) e1 by simp
  from server_loop_nx [OF udp rc tc clock1 r1(1)]
  obtain ns st2 where sl: "server_loop (Suc (Suc (length rest) + extra)) e False lifetime start rq st1
        = Some (Inr (r, ns, st2))"
    and r2: "nx_ready st2" "resolution st2 = resolution st1"
      "effective_lifetime lifetime (resolver st2) = effective_lifetime lifetime (resolver st1)"
      "ticks st2 = ticks st1 + 1"
    by blast
  let ?st3 = "st2\<lparr>resolution := (resolution st2)
                 \<lparr>nxdomain_responses :=
                    AList.update (rn_qname (resolution st2)) r
                      (nxdomain_responses (resolution st2))\<rparr>\<rparr>"
  have q2: "rn_qname (resolution st2) = name_empty"
    using r2(1) by (simp add: nx_ready_def)
  have r3: "nx_ready ?st3"
    using r2(1) by (simp add: nx_ready_def)
  have q3: "qnames (resolution ?st3) = rest"
    using r2(2) r1(2) by simp
  have clock3: "\<forall>n. ticks ?st3 \<le> n \<and> n < ticks ?st3 + 2 * length rest \<longrightarrow>
      env_clock e n - start \<le> effective_lifetime lifetime (resolver ?st3)"
    using Cons.prems(3) e1 r2(3,4) r1(4) by simp
  have n3: "nxdomain_responses (resolution ?st3)
            = AList.update name_empty r (nxdomain_responses (resolution st))"
    using q2 r2(2) r1(2) by simp
  have "resolve_loop (Suc (length (q # rest)) + extra) e rdtype rdclass False lifetime start st
        = resolve_loop (Suc (length rest) + extra) e rdtype rdclass False lifetime start ?st3"
    using nr sl rc by (simp add: answer_truthy_def)
  also have "\<dots> = Some (Inl (Raise_NXDOMAIN []
                        (if rest = [] then nxdomain_responses (resolution ?st3)
                         else AList.update name_empty r (nxdomain_responses (resolution ?st3)))))"
    by (rule Cons.IH [OF r3 q3 clock3])
  finally show ?case
    by (simp only: n3 update_same_twice if_cancel list.simps if_False)
qed

text \<open>
  Claim C2 says that, all \<open>k\<close> candidates being answered NXDOMAIN, the exception lists
  the \<open>k\<close> names in the planner's order and maps each to its response. In the code,
  for any \<open>k \<ge> 1\<close> candidates answered by the same NXDOMAIN response \<open>r\<close> within the
  lifetime, over UDP, by a resolver with a nameserver and an empty cache, \<^verbatim>\<open>resolve\<close>
  raises NXDOMAIN with an empty list of names and a single response, stored under the
  empty name.
\<close>

theorem resolve_all_nxdomain:
  assumes "\<forall>n rq ns. env_udp e n rq ns = Response r"
    and "msg_rcode r = NXDOMAIN"
    and "msg_flags r AND TC = 0"
    and "\<forall>n. 1 \<le> n \<and> n \<le> 2 * length cs \<longrightarrow>
           env_clock e n - env_clock e 0 \<le> effective_lifetime lifetime r0"
    and "rs_nameservers r0 \<noteq> []"
    and "rs_cache r0 = Some c"
    and "data c = Map.empty"
    and "cs \<noteq> []"
  shows "resolve (Suc (length cs) + extra) e r0 cs rdtype rdclass False raise_no_answer lifetime
         = Some (Inl (Raise_NXDOMAIN [] [(name_empty, r)]))"
proof -
  let ?st = "\<lparr>resolver = r0,
               resolution = Resolution_init cs rdtype rdclass False raise_no_answer,
               sends = 0, ticks = 1\<rparr>"
  have ready: "nx_ready ?st"
    using assms(5,6,7) by (simp add: nx_ready_def Resolution_init_def)
  have q: "qnames (resolution ?st) = cs"
    by (simp add: Resolution_init_def)
  have clock: "\<forall>n. ticks ?st \<le> n \<and> n < ticks ?st + 2 * length cs \<longrightarrow>
      env_clock e n - env_clock e 0 \<le> effective_lifetime lifetime (resolver ?st)"
    using assms(4) by simp
  have "resolve_loop (Suc (length cs) + extra) e rdtype rdclass False lifetime (env_clock e 0) ?st
        = Some (Inl (Raise_NXDOMAIN []
                       (if cs = [] then nxdomain_responses (resolution ?st)
                        else AList.update name_empty r (nxdomain_responses (resolution ?st)))))"
    by (rule resolve_loop_nx [OF assms(1,2,3) ready q clock])
  then show ?thesis
    using assms(8) by (simp add: resolve_def Resolution_init_def)
qed

theorem resolve_all_nxdomain_witness:
  "resolve 10 nxdomain_env sample_resolver sample_candidates 1 1 False True None
   = Some (Inl (Raise_NXDOMAIN [] [(name_empty, sample_response NXDOMAIN)]))"
proof -
  have h1: "\<forall>n rq ns. env_udp nxdomain_env n rq ns = Response (sample_response NXDOMAIN)"
    by (simp add: nxdomain_env_def)
  have h2: "msg_rcode (sample_response NXDOMAIN) = NXDOMAIN"
    by (simp add: sample_response_def)
  have h3: "msg_flags (sample_response NXDOMAIN) AND TC = 0"
    by (simp add: sample_response_def)
  have h4: "\<forall>n. 1 \<le> n \<and> n \<le> 2 * length sample_candidates \<longrightarrow>
      env_clock nxdomain_env n - env_clock nxdomain_env 0
        \<le> effective_lifetime None sample_resolver"
    by (simp add: nxdomain_env_def effective_lifetime_def sample_resolver_def
        sample_candidates_def)
  have h5: "rs_nameservers sample_resolver \<noteq> []"
    by (simp add: sample_resolver_def)
  have h6: "rs_cache sample_resolver = Some sample_cache"
    by (simp add: sample_resolver_def)
  have h7: "data (sample_cache :: CacheKey Cache) = Map.empty"
    by (simp add: sample_cache_def)
  have h8: "sample_candidates \<noteq> []"
    by (simp add: sample_candidates_def)
  have len: "Suc (length sample_candidates) + 6 = 10"
    by (simp add: sample_candidates_def)
  show ?thesis
    using resolve_all_nxdomain [OF h1 h2 h3 h4 h5 h6 h7 h8, of 6 1 1 True] len
    by simp
qed

text \<open>
  On the three candidates of \<^verbatim>\<open>foo\<close> under the search list \<^verbatim>\<open>[a.test., b.test.]\<close>,
  with the responses numbered 0, 1 and 2: the one response the exception holds is the
  last.
\<close>

lemma resolve_numbered_nxdomain_scenario:
  "resolve 10 numbered_nxdomain_env sample_resolver sample_candidates 1 1 False True None
   = Some (Inl (Raise_NXDOMAIN []
                  [(name_empty, (sample_response NXDOMAIN)\<lparr>msg_id := 2\<rparr>)]))"
  by (simp add: resolve_def Resolution_init_def sample_resolver_def sample_candidates_def
      numbered_nxdomain_env_def next_request_def cache_get_def cache_get_readings_def
      maybe_clean_def sample_cache_def get_next_nameserver_def dispatch_def TC_def
      sample_response_def effective_lifetime_def answer_truthy_def eval_nat_numeral Let_def
      name_empty_def sample_nameserver_def)

end
